theory Spec2Isabelle
  imports Main "HOL-Library.Sublist" "HOL-Library.Multiset"
begin

section \<open>Values of the override grammar\<close>

text \<open>
  The functions of \<^verbatim>\<open>grammar_functions.py\<close> work on dynamically typed Python values.
  The exceptions they raise are the left summand of a result type.
\<close>

datatype exn =
  TypeError | ValueError | HydraException | AssertionError | OverflowError | AttributeError
  | RecursionError

text \<open>
  A value is \<^verbatim>\<open>None\<close>, a primitive, a \<^verbatim>\<open>QuotedString\<close> (only its \<^verbatim>\<open>text\<close> is read),
  a list, a dict (its items in insertion order), one of the three sweeps or a \<^verbatim>\<open>Glob\<close>.
  Python floats stay abstract: they are the type parameter \<open>'f\<close>.
  The fields of a sweep are, in order:
  \<^item> \<open>ChoiceSweep list simple_form tags shuffle\<close>,
  \<^item> \<open>RangeSweep start stop step tags shuffle\<close>,
  \<^item> \<open>IntervalSweep start end tags shuffle\<close>,
  \<^item> \<open>Glob include exclude\<close>.
\<close>

datatype 'f elem =
    NoneV
  | IntV int
  | FloatV 'f
  | BoolV bool
  | StrV string
  | QuotedString string
  | ListV "'f elem list"
  | DictV "('f elem \<times> 'f elem) list"
  | ChoiceSweep "'f elem list" bool "string set" bool
  | RangeSweep "'f elem" "'f elem" "'f elem" "string set" bool
  | IntervalSweep "'f elem" "'f elem" "string set" bool
  | Glob "'f elem" "'f elem"

type_synonym 'f result = "exn + 'f elem"

text \<open>
  Modelled from the spec: the classes of \<^verbatim>\<open>hydra.core.override_parser.types\<close>, which
  the module imports and does not define. A sweep built by its constructor without \<^verbatim>\<open>tags\<close> and
  \<^verbatim>\<open>shuffle\<close> has the empty tag set and the shuffle flag off; a \<^verbatim>\<open>ChoiceSweep\<close> built
  without \<^verbatim>\<open>simple_form\<close> is in explicit form.
\<close>

definition new_ChoiceSweep :: "'f elem list \<Rightarrow> bool \<Rightarrow> 'f elem" where
  "new_ChoiceSweep lst simple_form = ChoiceSweep lst simple_form {} False"

definition new_RangeSweep :: "'f elem \<Rightarrow> 'f elem \<Rightarrow> 'f elem \<Rightarrow> 'f elem" where
  "new_RangeSweep start stop step = RangeSweep start stop step {} False"

definition new_IntervalSweep :: "'f elem \<Rightarrow> 'f elem \<Rightarrow> 'f elem" where
  "new_IntervalSweep start end = IntervalSweep start end {} False"

text \<open>\<^verbatim>\<open>isinstance(v, Sweep)\<close>, \<^verbatim>\<open>isinstance(v, ChoiceSweep)\<close> and \<^verbatim>\<open>isinstance(v, str)\<close>.\<close>

fun is_Sweep :: "'f elem \<Rightarrow> bool" where
  "is_Sweep (ChoiceSweep _ _ _ _) = True"
| "is_Sweep (RangeSweep _ _ _ _ _) = True"
| "is_Sweep (IntervalSweep _ _ _ _) = True"
| "is_Sweep _ = False"

fun is_ChoiceSweep :: "'f elem \<Rightarrow> bool" where
  "is_ChoiceSweep (ChoiceSweep _ _ _ _) = True"
| "is_ChoiceSweep _ = False"

fun is_RangeSweep :: "'f elem \<Rightarrow> bool" where
  "is_RangeSweep (RangeSweep _ _ _ _ _) = True"
| "is_RangeSweep _ = False"

fun is_str :: "'f elem \<Rightarrow> bool" where
  "is_str (StrV _) = True"
| "is_str _ = False"

fun simple_form :: "'f elem \<Rightarrow> bool" where
  "simple_form (ChoiceSweep _ sf _ _) = sf"
| "simple_form _ = False"

fun tags :: "'f elem \<Rightarrow> string set" where
  "tags (ChoiceSweep _ _ ts _) = ts"
| "tags (RangeSweep _ _ _ ts _) = ts"
| "tags (IntervalSweep _ _ ts _) = ts"
| "tags _ = {}"

text \<open>The attribute assignments \<^verbatim>\<open>first.simple_form = False\<close>, \<^verbatim>\<open>sweep.tags = tags\<close>
  and \<^verbatim>\<open>sweep.shuffle = True\<close>.\<close>

fun set_simple_form :: "bool \<Rightarrow> 'f elem \<Rightarrow> 'f elem" where
  "set_simple_form b (ChoiceSweep l _ ts sh) = ChoiceSweep l b ts sh"
| "set_simple_form b v = v"

fun set_tags :: "string set \<Rightarrow> 'f elem \<Rightarrow> 'f elem" where
  "set_tags ts (ChoiceSweep l sf _ sh) = ChoiceSweep l sf ts sh"
| "set_tags ts (RangeSweep a b c _ sh) = RangeSweep a b c ts sh"
| "set_tags ts (IntervalSweep a b _ sh) = IntervalSweep a b ts sh"
| "set_tags ts v = v"

fun set_shuffle :: "bool \<Rightarrow> 'f elem \<Rightarrow> 'f elem" where
  "set_shuffle s (ChoiceSweep l sf ts _) = ChoiceSweep l sf ts s"
| "set_shuffle s (RangeSweep a b c ts _) = RangeSweep a b c ts s"
| "set_shuffle s (IntervalSweep a b ts _) = IntervalSweep a b ts s"
| "set_shuffle s v = v"

section \<open>Sweep constructors\<close>

text \<open>
  \<^verbatim>\<open>choice(*args)\<close>: a lone simple-form choice sweep is promoted; any other
  \<^verbatim>\<open>ChoiceSweep\<close> among the arguments is rejected; otherwise the arguments become the
  list of a new sweep.
\<close>

definition choice :: "'f elem list \<Rightarrow> 'f result" where
  "choice args =
     (if length args = 1 \<and> is_ChoiceSweep (hd args) \<and> simple_form (hd args)
      then Inr (set_simple_form False (hd args))
      else if list_ex is_ChoiceSweep args then Inl HydraException
      else Inr (new_ChoiceSweep args False))"

definition range_py :: "'f elem \<Rightarrow> 'f elem \<Rightarrow> 'f elem \<Rightarrow> 'f result" where
  "range_py start stop step = Inr (new_RangeSweep start stop step)"

definition interval :: "'f elem \<Rightarrow> 'f elem \<Rightarrow> 'f result" where
  "interval start end = Inr (new_IntervalSweep start end)"

text \<open>
  \<^verbatim>\<open>tag(*args, sweep=None)\<close>. An absent keyword argument is \<^verbatim>\<open>None\<close>, as in the source.
  The loop over \<^verbatim>\<open>args[0:-1]\<close> raises at the first argument that is not a \<^verbatim>\<open>str\<close>.
\<close>

fun the_str :: "'f elem \<Rightarrow> string" where
  "the_str (StrV s) = s"
| "the_str _ = []"

function tag :: "'f elem list \<Rightarrow> 'f elem \<Rightarrow> 'f result" where
  "tag args sweep =
     (if length args < 1 then Inl ValueError
      else if sweep \<noteq> NoneV then tag (args @ [sweep]) NoneV
      else if is_Sweep (last args)
        then (if list_all is_str (butlast args)
              then Inr (set_tags (set (map the_str (butlast args))) (last args))
              else Inl ValueError)
      else Inl ValueError)"
  by pat_completeness auto
termination
  by (relation "measure (\<lambda>(args, sweep). if sweep = NoneV then 0 else 1)") auto

declare tag.simps [simp del]

text \<open>
  \<^verbatim>\<open>glob(include, exclude=None)\<close>: a lone string becomes a one-element list, an absent
  \<^verbatim>\<open>exclude\<close> the empty list.
\<close>

definition glob :: "'f elem \<Rightarrow> 'f elem \<Rightarrow> 'f result" where
  "glob include exclude =
     Inr (Glob (if is_str include then ListV [include] else include)
               (if exclude = NoneV then ListV []
                else if is_str exclude then ListV [exclude] else exclude))"

section \<open>The interpreter's builtins\<close>

text \<open>
  What the functions take from Python itself is a parameter of the model: the conversions
  between \<^verbatim>\<open>int\<close>, \<^verbatim>\<open>float\<close> and \<^verbatim>\<open>str\<close> (each with the exception it may raise),
  the arithmetic and comparisons that involve something other than two integers,
  \<^verbatim>\<open>sorted\<close>, and \<^verbatim>\<open>random.shuffle\<close> on the state of the shared generator.
  The field \<open>parsed_element\<close> is \<^verbatim>\<open>is_type_matching(arg, ParsedElementType)\<close>, whose type
  union is imported from \<^verbatim>\<open>hydra.core.override_parser.types\<close>.
\<close>

type_synonym rng = nat

record 'f builtins =
  int_float :: "'f \<Rightarrow> exn + int"
  int_str :: "string \<Rightarrow> exn + int"
  float_int :: "int \<Rightarrow> exn + 'f"
  float_str :: "string \<Rightarrow> exn + 'f"
  str_int :: "int \<Rightarrow> exn + string"
  str_float :: "'f \<Rightarrow> string"
  bool_float :: "'f \<Rightarrow> bool"
  gt_other :: "'f elem \<Rightarrow> 'f elem \<Rightarrow> exn + bool"
  lt_other :: "'f elem \<Rightarrow> 'f elem \<Rightarrow> exn + bool"
  add_other :: "'f elem \<Rightarrow> 'f elem \<Rightarrow> 'f result"
  sub_other :: "'f elem \<Rightarrow> 'f elem \<Rightarrow> 'f result"
  abs_other :: "'f elem \<Rightarrow> 'f result"
  neg_other :: "'f elem \<Rightarrow> 'f result"
  py_sorted :: "'f elem list \<Rightarrow> bool \<Rightarrow> exn + 'f elem list"
  random_shuffle :: "rng \<Rightarrow> 'f elem list \<Rightarrow> 'f elem list \<times> rng"
  parsed_element :: "'f elem \<Rightarrow> bool"

text \<open>Sequencing of calls that may raise: the first exception ends the evaluation.\<close>

definition bind_exn :: "exn + 'a \<Rightarrow> ('a \<Rightarrow> exn + 'b) \<Rightarrow> exn + 'b" where
  "bind_exn m f = (case m of Inl e \<Rightarrow> Inl e | Inr x \<Rightarrow> f x)"

fun sequence :: "(exn + 'a) list \<Rightarrow> exn + 'a list" where
  "sequence [] = Inr []"
| "sequence (m # ms) =
     (case m of Inl e \<Rightarrow> Inl e
      | Inr y \<Rightarrow> (case sequence ms of Inl e \<Rightarrow> Inl e | Inr ys \<Rightarrow> Inr (y # ys)))"

text \<open>
  Integers are Python's unbounded integers, and \<^verbatim>\<open>bool\<close> is a subclass of \<^verbatim>\<open>int\<close>.
  Arithmetic on two of them is exact; anything else goes to the parameters.
\<close>

fun as_int :: "'f elem \<Rightarrow> int option" where
  "as_int (IntV n) = Some n"
| "as_int (BoolV b) = Some (if b then 1 else 0)"
| "as_int _ = None"

definition py_gt :: "'f builtins \<Rightarrow> 'f elem \<Rightarrow> 'f elem \<Rightarrow> exn + bool" where
  "py_gt P a b = (case (as_int a, as_int b) of
      (Some x, Some y) \<Rightarrow> Inr (x > y) | _ \<Rightarrow> gt_other P a b)"

definition py_lt :: "'f builtins \<Rightarrow> 'f elem \<Rightarrow> 'f elem \<Rightarrow> exn + bool" where
  "py_lt P a b = (case (as_int a, as_int b) of
      (Some x, Some y) \<Rightarrow> Inr (x < y) | _ \<Rightarrow> lt_other P a b)"

definition py_add :: "'f builtins \<Rightarrow> 'f elem \<Rightarrow> 'f elem \<Rightarrow> 'f result" where
  "py_add P a b = (case (as_int a, as_int b) of
      (Some x, Some y) \<Rightarrow> Inr (IntV (x + y)) | _ \<Rightarrow> add_other P a b)"

definition py_sub :: "'f builtins \<Rightarrow> 'f elem \<Rightarrow> 'f elem \<Rightarrow> 'f result" where
  "py_sub P a b = (case (as_int a, as_int b) of
      (Some x, Some y) \<Rightarrow> Inr (IntV (x - y)) | _ \<Rightarrow> sub_other P a b)"

definition py_abs :: "'f builtins \<Rightarrow> 'f elem \<Rightarrow> 'f result" where
  "py_abs P a = (case as_int a of Some x \<Rightarrow> Inr (IntV \<bar>x\<bar>) | None \<Rightarrow> abs_other P a)"

definition py_neg :: "'f builtins \<Rightarrow> 'f elem \<Rightarrow> 'f result" where
  "py_neg P a = (case as_int a of Some x \<Rightarrow> Inr (IntV (- x)) | None \<Rightarrow> neg_other P a)"

text \<open>
  \<^verbatim>\<open>str.lower()\<close>. Strings are lists of characters; the letters \<^verbatim>\<open>A\<close> to \<^verbatim>\<open>Z\<close> are
  lowered and every other character is kept. (Python lowers letters outside ASCII as
  well; the comparisons of \<^verbatim>\<open>cast_bool\<close> with \<^verbatim>\<open>false\<close> and \<^verbatim>\<open>true\<close> only
  depend on the ASCII letters.)
\<close>

definition lower_char :: "char \<Rightarrow> char" where
  "lower_char c =
     (case map_of (zip ''ABCDEFGHIJKLMNOPQRSTUVWXYZ'' ''abcdefghijklmnopqrstuvwxyz'') c of
        Some d \<Rightarrow> d | None \<Rightarrow> c)"

definition lower :: "string \<Rightarrow> string" where
  "lower s = map lower_char s"

text \<open>\<^verbatim>\<open>bool(value)\<close>: the truth value of an object.\<close>

fun truthy :: "'f builtins \<Rightarrow> 'f elem \<Rightarrow> bool" where
  "truthy P NoneV = False"
| "truthy P (IntV n) = (n \<noteq> 0)"
| "truthy P (FloatV x) = bool_float P x"
| "truthy P (BoolV b) = b"
| "truthy P (StrV s) = (s \<noteq> [])"
| "truthy P (ListV xs) = (xs \<noteq> [])"
| "truthy P (DictV items) = (items \<noteq> [])"
| "truthy P _ = True"

text \<open>\<^verbatim>\<open>isinstance(value, (int, float, bool, str))\<close>.\<close>

fun is_primitive :: "'f elem \<Rightarrow> bool" where
  "is_primitive (IntV _) = True"
| "is_primitive (FloatV _) = True"
| "is_primitive (BoolV _) = True"
| "is_primitive (StrV _) = True"
| "is_primitive _ = False"

text \<open>
  Modelled from the spec: \<^verbatim>\<open>is_type_matching\<close>, imported from
  \<^verbatim>\<open>hydra._internal.grammar.utils\<close>; the spec has it check that a value conforms to a
  type union. \<^verbatim>\<open>ElementType\<close> is the union of \<^verbatim>\<open>str\<close>, \<^verbatim>\<open>int\<close>, \<^verbatim>\<open>bool\<close>, \<^verbatim>\<open>float\<close>,
  \<^verbatim>\<open>list\<close> and \<^verbatim>\<open>dict\<close>.
\<close>

fun is_ElementType :: "'f elem \<Rightarrow> bool" where
  "is_ElementType (StrV _) = True"
| "is_ElementType (IntV _) = True"
| "is_ElementType (BoolV _) = True"
| "is_ElementType (FloatV _) = True"
| "is_ElementType (ListV _) = True"
| "is_ElementType (DictV _) = True"
| "is_ElementType _ = False"

section \<open>Casting engine\<close>

text \<open>
  The four functions \<^verbatim>\<open>cast_int\<close>, \<^verbatim>\<open>cast_float\<close>, \<^verbatim>\<open>cast_str\<close> and \<^verbatim>\<open>cast_bool\<close>
  have the same body up to the conversion of a scalar at its end. A value of \<open>cast_fn\<close>
  names the function at work, the way \<^verbatim>\<open>cast_range\<close> compares its \<^verbatim>\<open>function\<close> argument
  with \<^verbatim>\<open>cast_float\<close> and \<^verbatim>\<open>cast_int\<close>.
\<close>

datatype cast_fn = Cast_int | Cast_float | Cast_str | Cast_bool

text \<open>\<^verbatim>\<open>apply_to_dict_values(value, function)\<close>: the keys are kept, in their order.\<close>

definition apply_to_dict_values ::
  "('f elem \<times> 'f elem) list \<Rightarrow> ('f elem \<Rightarrow> 'f result) \<Rightarrow> 'f result" where
  "apply_to_dict_values items function =
     (case sequence (map (\<lambda>(key, v). map_sum id (Pair key) (function v)) items) of
        Inl e \<Rightarrow> Inl e | Inr ret_dict \<Rightarrow> Inr (DictV ret_dict))"

text \<open>
  \<^verbatim>\<open>cast_choice(value, function)\<close>: each item is cast and checked against
  \<^verbatim>\<open>ElementType\<close>; the sweep returned is built from \<^verbatim>\<open>simple_form\<close> and the new list
  only.
\<close>

fun cast_choice :: "'f elem \<Rightarrow> ('f elem \<Rightarrow> 'f result) \<Rightarrow> 'f result" where
  "cast_choice (ChoiceSweep lst sf ts sh) function =
     (case sequence (map (\<lambda>item. bind_exn (function item)
             (\<lambda>c. if is_ElementType c then Inr c else Inl AssertionError)) lst) of
        Inl e \<Rightarrow> Inl e
      | Inr choices \<Rightarrow> Inr (new_ChoiceSweep choices sf))"
| "cast_choice _ function = Inl AttributeError"

text \<open>\<^verbatim>\<open>cast_interval(value, _function)\<close>.\<close>

fun cast_interval :: "'f elem \<Rightarrow> 'f result" where
  "cast_interval (IntervalSweep _ _ _ _) = Inl ValueError"
| "cast_interval _ = Inr NoneV"

text \<open>
  \<^verbatim>\<open>cast_range(value, function)\<close>: \<open>fn\<close> is the identity of \<^verbatim>\<open>function\<close>, \<open>function\<close>
  what it computes. Start, stop and step are cast in this order.
\<close>

fun cast_range :: "'f elem \<Rightarrow> cast_fn \<Rightarrow> ('f elem \<Rightarrow> 'f result) \<Rightarrow> 'f result" where
  "cast_range (RangeSweep start stop step ts sh) fn function =
     (if fn \<noteq> Cast_float \<and> fn \<noteq> Cast_int then Inl HydraException
      else bind_exn (function start) (\<lambda>start'.
           bind_exn (function stop) (\<lambda>stop'.
           bind_exn (function step) (\<lambda>step'.
           Inr (new_RangeSweep start' stop' step')))))"
| "cast_range _ fn function =
     (if fn \<noteq> Cast_float \<and> fn \<noteq> Cast_int then Inl HydraException else Inl AttributeError)"

text \<open>\<^verbatim>\<open>_list_to_simple_choice(*args)\<close> and \<^verbatim>\<open>_normalize_cast_value(*args, value)\<close>.\<close>

definition list_to_simple_choice :: "'f builtins \<Rightarrow> 'f elem list \<Rightarrow> 'f result" where
  "list_to_simple_choice P args =
     (if list_all (parsed_element P) args then Inr (new_ChoiceSweep args True)
      else Inl AssertionError)"

definition normalize_cast_value :: "'f builtins \<Rightarrow> 'f elem list \<Rightarrow> 'f elem \<Rightarrow> 'f result" where
  "normalize_cast_value P args v =
     (if length args > 0 \<and> v \<noteq> NoneV then Inl TypeError
      else if v \<noteq> NoneV then Inr v
      else if length args = 0 then Inl TypeError
      else if length args = 1 then Inr (args ! 0)
      else if length args > 1 then list_to_simple_choice P args
      else Inl AssertionError)"

text \<open>
  The end of each cast function, reached by a value that is none of
  \<^verbatim>\<open>QuotedString\<close>, \<^verbatim>\<open>dict\<close>, \<^verbatim>\<open>list\<close> and the sweeps: \<^verbatim>\<open>int(value)\<close>,
  \<^verbatim>\<open>float(value)\<close>, \<^verbatim>\<open>str(value)\<close> (lowered for a \<^verbatim>\<open>bool\<close>) behind the assertion, and
  for \<^verbatim>\<open>cast_bool\<close> the comparison of a string with \<^verbatim>\<open>false\<close> and \<^verbatim>\<open>true\<close>.
\<close>

fun py_int :: "'f builtins \<Rightarrow> 'f elem \<Rightarrow> 'f result" where
  "py_int P (IntV n) = Inr (IntV n)"
| "py_int P (BoolV b) = Inr (IntV (if b then 1 else 0))"
| "py_int P (FloatV x) = map_sum id IntV (int_float P x)"
| "py_int P (StrV s) = map_sum id IntV (int_str P s)"
| "py_int P _ = Inl TypeError"

fun py_float :: "'f builtins \<Rightarrow> 'f elem \<Rightarrow> 'f result" where
  "py_float P (IntV n) = map_sum id FloatV (float_int P n)"
| "py_float P (BoolV b) = map_sum id FloatV (float_int P (if b then 1 else 0))"
| "py_float P (FloatV x) = Inr (FloatV x)"
| "py_float P (StrV s) = map_sum id FloatV (float_str P s)"
| "py_float P _ = Inl TypeError"

fun py_str :: "'f builtins \<Rightarrow> 'f elem \<Rightarrow> 'f result" where
  "py_str P (IntV n) = map_sum id StrV (str_int P n)"
| "py_str P (BoolV b) = Inr (StrV (if b then ''True'' else ''False''))"
| "py_str P (FloatV x) = Inr (StrV (str_float P x))"
| "py_str P (StrV s) = Inr (StrV s)"
| "py_str P _ = Inl TypeError"

fun scalar :: "'f builtins \<Rightarrow> cast_fn \<Rightarrow> 'f elem \<Rightarrow> 'f result" where
  "scalar P Cast_int v = (if is_primitive v then py_int P v else Inl AssertionError)"
| "scalar P Cast_float v = (if is_primitive v then py_float P v else Inl AssertionError)"
| "scalar P Cast_str v =
     (if is_primitive v
      then (case v of
              BoolV b \<Rightarrow> bind_exn (py_str P v) (\<lambda>s. Inr (StrV (lower (the_str s))))
            | _ \<Rightarrow> py_str P v)
      else Inl AssertionError)"
| "scalar P Cast_bool v =
     (case v of
        StrV s \<Rightarrow>
          (if lower s = ''false'' then Inr (BoolV False)
           else if lower s = ''true'' then Inr (BoolV True)
           else Inl ValueError)
      | _ \<Rightarrow> Inr (BoolV (truthy P v)))"

lemma apply_to_dict_values_cong [fundef_cong]:
  "items = items' \<Longrightarrow> (\<And>key v. (key, v) \<in> set items' \<Longrightarrow> f v = g v) \<Longrightarrow>
   apply_to_dict_values items f = apply_to_dict_values items' g"
  unfolding apply_to_dict_values_def
  by (auto intro!: arg_cong [where f = sequence] arg_cong [where f = "case_sum _ _"])

fun choice_list :: "'f elem \<Rightarrow> 'f elem list" where
  "choice_list (ChoiceSweep lst _ _ _) = lst"
| "choice_list _ = []"

lemma cast_choice_cong [fundef_cong]:
  "v = v' \<Longrightarrow> (\<And>item. item \<in> set (choice_list v') \<Longrightarrow> f item = g item) \<Longrightarrow>
   cast_choice v f = cast_choice v' g"
  by (cases v') (auto intro!: arg_cong [where f = sequence] arg_cong [where f = "case_sum _ _"])

fun range_fields :: "'f elem \<Rightarrow> 'f elem list" where
  "range_fields (RangeSweep start stop step _ _) = [start, stop, step]"
| "range_fields _ = []"

lemma cast_range_cong [fundef_cong]:
  "v = v' \<Longrightarrow> fn = fn' \<Longrightarrow> (\<And>x. x \<in> set (range_fields v') \<Longrightarrow> f x = g x) \<Longrightarrow>
   cast_range v fn f = cast_range v' fn' g"
  by (cases v') auto

text \<open>
  The body of a cast function behind \<^verbatim>\<open>_normalize_cast_value\<close>. A recursive call in
  the source passes one positional argument and no \<^verbatim>\<open>value\<close>, which normalizes to
  that argument (\<open>cast_one_positional\<close> below); the text of a \<^verbatim>\<open>QuotedString\<close> is a
  \<^verbatim>\<open>str\<close> and so reaches the end of the body.
\<close>

fun cast_body :: "'f builtins \<Rightarrow> cast_fn \<Rightarrow> 'f elem \<Rightarrow> 'f result" where
  "cast_body P fn (QuotedString text) = scalar P fn (StrV text)"
| "cast_body P fn (DictV items) = apply_to_dict_values items (cast_body P fn)"
| "cast_body P fn (ListV xs) =
     (case sequence (map (cast_body P fn) xs) of Inl e \<Rightarrow> Inl e | Inr ys \<Rightarrow> Inr (ListV ys))"
| "cast_body P fn (ChoiceSweep lst sf ts sh) =
     cast_choice (ChoiceSweep lst sf ts sh) (cast_body P fn)"
| "cast_body P fn (RangeSweep start stop step ts sh) =
     cast_range (RangeSweep start stop step ts sh) fn (cast_body P fn)"
| "cast_body P fn (IntervalSweep start end ts sh) =
     cast_interval (IntervalSweep start end ts sh)"
| "cast_body P fn v = scalar P fn v"

definition cast :: "'f builtins \<Rightarrow> cast_fn \<Rightarrow> 'f elem list \<Rightarrow> 'f elem \<Rightarrow> 'f result" where
  "cast P fn args v = bind_exn (normalize_cast_value P args v) (cast_body P fn)"

definition cast_int :: "'f builtins \<Rightarrow> 'f elem list \<Rightarrow> 'f elem \<Rightarrow> 'f result" where
  "cast_int P args v = cast P Cast_int args v"

definition cast_float :: "'f builtins \<Rightarrow> 'f elem list \<Rightarrow> 'f elem \<Rightarrow> 'f result" where
  "cast_float P args v = cast P Cast_float args v"

definition cast_str :: "'f builtins \<Rightarrow> 'f elem list \<Rightarrow> 'f elem \<Rightarrow> 'f result" where
  "cast_str P args v = cast P Cast_str args v"

definition cast_bool :: "'f builtins \<Rightarrow> 'f elem list \<Rightarrow> 'f elem \<Rightarrow> 'f result" where
  "cast_bool P args v = cast P Cast_bool args v"

section \<open>Ordering transforms\<close>

text \<open>
  \<^verbatim>\<open>shuffle(*args, sweep=None, list=None)\<close>, with the state of the shared random
  generator passed through. \<^verbatim>\<open>copy(arg)\<close> of a sweep followed by an assignment to the
  copy is the sweep with that field changed.
\<close>

function shuffle ::
  "'f builtins \<Rightarrow> rng \<Rightarrow> 'f elem list \<Rightarrow> 'f elem \<Rightarrow> 'f elem \<Rightarrow> 'f result \<times> rng" where
  "shuffle P g args sweep lst =
     (if lst \<noteq> NoneV then shuffle P g [lst] NoneV NoneV
      else if sweep \<noteq> NoneV then shuffle P g [sweep] NoneV NoneV
      else if length args = 1 then
        (let arg = args ! 0 in
         if is_ChoiceSweep arg \<or> is_RangeSweep arg then (Inr (set_shuffle True arg), g)
         else (case arg of
                 ListV xs \<Rightarrow> (let (ys, g') = random_shuffle P g xs in (Inr (ListV ys), g'))
               | _ \<Rightarrow> (Inr (ListV [arg]), g)))
      else (map_sum id (set_shuffle True) (list_to_simple_choice P args), g))"
  by pat_completeness auto
termination
  by (relation "measure (\<lambda>(P, g, args, sweep, lst).
        if lst \<noteq> NoneV then 2 else if sweep \<noteq> NoneV then 1 else 0)") auto

declare shuffle.simps [simp del]

text \<open>
  \<^verbatim>\<open>_sort_sweep(sweep, reverse)\<close>. For a range the two assertions come first, then the
  comparison of start and stop; the new start, the new stop and the negated step are
  computed in this order.
\<close>

fun sort_sweep :: "'f builtins \<Rightarrow> 'f elem \<Rightarrow> bool \<Rightarrow> 'f result" where
  "sort_sweep P (ChoiceSweep lst sf ts sh) reverse =
     (case py_sorted P lst reverse of
        Inl e \<Rightarrow> Inl e | Inr lst' \<Rightarrow> Inr (ChoiceSweep lst' sf ts sh))"
| "sort_sweep P (RangeSweep start stop step ts sh) reverse =
     (if start = NoneV \<or> stop = NoneV then Inl AssertionError
      else if \<not> reverse then
        bind_exn (py_gt P start stop) (\<lambda>gt.
          if gt then
            bind_exn (py_abs P step) (\<lambda>a.
            bind_exn (py_add P stop a) (\<lambda>start'.
            bind_exn (py_abs P step) (\<lambda>a'.
            bind_exn (py_add P start a') (\<lambda>stop'.
            bind_exn (py_neg P step) (\<lambda>step'.
            Inr (RangeSweep start' stop' step' ts sh))))))
          else Inr (RangeSweep start stop step ts sh))
      else
        bind_exn (py_lt P start stop) (\<lambda>lt.
          if lt then
            bind_exn (py_abs P step) (\<lambda>a.
            bind_exn (py_sub P stop a) (\<lambda>start'.
            bind_exn (py_abs P step) (\<lambda>a'.
            bind_exn (py_sub P start a') (\<lambda>stop'.
            bind_exn (py_neg P step) (\<lambda>step'.
            Inr (RangeSweep start' stop' step' ts sh))))))
          else Inr (RangeSweep start stop step ts sh)))"
| "sort_sweep P _ reverse = Inl AssertionError"

text \<open>\<^verbatim>\<open>sort(*args, sweep=None, reverse=False, list=None)\<close>.\<close>

function sort_py ::
  "'f builtins \<Rightarrow> 'f elem list \<Rightarrow> 'f elem \<Rightarrow> bool \<Rightarrow> 'f elem \<Rightarrow> 'f result" where
  "sort_py P args sweep reverse lst =
     (if lst \<noteq> NoneV then sort_py P [lst] NoneV reverse NoneV
      else if sweep \<noteq> NoneV then sort_sweep P sweep reverse
      else if length args = 1 then
        (let arg = args ! 0 in
         if is_ChoiceSweep arg \<or> is_RangeSweep arg then sort_sweep P arg reverse
         else (case arg of
                 ListV xs \<Rightarrow>
                   (case py_sorted P xs reverse of Inl e \<Rightarrow> Inl e | Inr ys \<Rightarrow> Inr (ListV ys))
               | _ \<Rightarrow> Inl TypeError))
      else if \<not> list_all is_primitive args then Inl TypeError
      else bind_exn (list_to_simple_choice P args) (\<lambda>cw. sort_sweep P cw reverse))"
  by pat_completeness auto
termination
  by (relation "measure (\<lambda>(P, args, sweep, reverse, lst). if lst \<noteq> NoneV then 1 else 0)") auto

declare sort_py.simps [simp del]

text \<open>
  Modelled from the spec: the enumeration of a \<^verbatim>\<open>RangeSweep\<close>, which belongs to the
  imported class. The spec has it be the arithmetic progression
  \<open>start, start + step, start + 2 * step, ...\<close> strictly before \<open>stop\<close>, the stop being
  exclusive also for a negative step. \<open>range_count\<close> is the number of its values.
\<close>

definition range_count :: "int \<Rightarrow> int \<Rightarrow> int \<Rightarrow> nat" where
  "range_count start stop step =
     (if step > 0 \<and> start < stop then nat ((stop - start - 1) div step + 1)
      else if step < 0 \<and> stop < start then nat ((start - stop - 1) div (- step) + 1)
      else 0)"

definition expand :: "int \<Rightarrow> int \<Rightarrow> int \<Rightarrow> int list" where
  "expand start stop step =
     map (\<lambda>i. start + int i * step) [0 ..< range_count start stop step]"

fun expand_sweep :: "'f elem \<Rightarrow> int list" where
  "expand_sweep (RangeSweep (IntV start) (IntV stop) (IntV step) ts sh) = expand start stop step"
| "expand_sweep _ = []"

section \<open>The functions on a store\<close>

text \<open>
  Whether a call changes an object it was given cannot be read off values: the same
  functions are written once more over a store. A value is a scalar or a reference; the
  store is the list of all objects, an address being an index into it. Lists, dicts,
  quoted strings, sweeps and globs are objects. The tag set of a sweep is kept inside the
  sweep: the only set the source modifies in place is the one \<^verbatim>\<open>tag\<close> has just created,
  before it is assigned. A function takes the store and returns its result (or the
  exception) with the store it leaves behind.
\<close>

type_synonym addr = nat

datatype 'f val = VNone | VInt int | VFloat 'f | VBool bool | VStr string | Ref addr

datatype 'f obj =
    OQuoted string
  | OList "'f val list"
  | ODict "('f val \<times> 'f val) list"
  | OChoice "'f val" bool "string set" bool
  | ORange "'f val" "'f val" "'f val" "string set" bool
  | OInterval "'f val" "'f val" "string set" bool
  | OGlob "'f val" "'f val"

type_synonym 'f heap = "'f obj list"

type_synonym 'f outcome = "(exn + 'f val) \<times> 'f heap"

text \<open>
  Creating an object appends it to the store; \<open>obj_at\<close> follows a reference, \<open>store\<close>
  overwrites the object at a reference and \<open>modify\<close> assigns to a field of it.
\<close>

definition alloc :: "'f heap \<Rightarrow> 'f obj \<Rightarrow> 'f val \<times> 'f heap" where
  "alloc h ob = (Ref (length h), h @ [ob])"

fun obj_at :: "'f heap \<Rightarrow> 'f val \<Rightarrow> 'f obj option" where
  "obj_at h (Ref a) = (if a < length h then Some (h ! a) else None)"
| "obj_at h _ = None"

fun store :: "'f heap \<Rightarrow> 'f val \<Rightarrow> 'f obj \<Rightarrow> 'f heap" where
  "store h (Ref a) ob = h[a := ob]"
| "store h _ ob = h"

definition modify :: "'f heap \<Rightarrow> 'f val \<Rightarrow> ('f obj \<Rightarrow> 'f obj) \<Rightarrow> 'f heap" where
  "modify h v f = (case obj_at h v of Some ob \<Rightarrow> store h v (f ob) | None \<Rightarrow> h)"

text \<open>Scalars are the values shared with the first model.\<close>

fun imm :: "'f val \<Rightarrow> 'f elem option" where
  "imm VNone = Some NoneV"
| "imm (VInt n) = Some (IntV n)"
| "imm (VFloat x) = Some (FloatV x)"
| "imm (VBool b) = Some (BoolV b)"
| "imm (VStr s) = Some (StrV s)"
| "imm (Ref a) = None"

fun val_of :: "'f elem \<Rightarrow> 'f val" where
  "val_of (IntV n) = VInt n"
| "val_of (FloatV x) = VFloat x"
| "val_of (BoolV b) = VBool b"
| "val_of (StrV s) = VStr s"
| "val_of _ = VNone"

fun is_ChoiceSweep_st :: "'f heap \<Rightarrow> 'f val \<Rightarrow> bool" where
  "is_ChoiceSweep_st h v = (case obj_at h v of Some (OChoice _ _ _ _) \<Rightarrow> True | _ \<Rightarrow> False)"

fun is_RangeSweep_st :: "'f heap \<Rightarrow> 'f val \<Rightarrow> bool" where
  "is_RangeSweep_st h v = (case obj_at h v of Some (ORange _ _ _ _ _) \<Rightarrow> True | _ \<Rightarrow> False)"

fun is_Sweep_st :: "'f heap \<Rightarrow> 'f val \<Rightarrow> bool" where
  "is_Sweep_st h v = (case obj_at h v of
       Some (OChoice _ _ _ _) \<Rightarrow> True | Some (ORange _ _ _ _ _) \<Rightarrow> True
     | Some (OInterval _ _ _ _) \<Rightarrow> True | _ \<Rightarrow> False)"

fun is_str_st :: "'f val \<Rightarrow> bool" where
  "is_str_st (VStr _) = True"
| "is_str_st _ = False"

fun the_str_st :: "'f val \<Rightarrow> string" where
  "the_str_st (VStr s) = s"
| "the_str_st _ = []"

fun simple_form_st :: "'f heap \<Rightarrow> 'f val \<Rightarrow> bool" where
  "simple_form_st h v = (case obj_at h v of Some (OChoice _ sf _ _) \<Rightarrow> sf | _ \<Rightarrow> False)"

fun with_simple_form :: "bool \<Rightarrow> 'f obj \<Rightarrow> 'f obj" where
  "with_simple_form b (OChoice l _ ts sh) = OChoice l b ts sh"
| "with_simple_form b ob = ob"

fun with_tags :: "string set \<Rightarrow> 'f obj \<Rightarrow> 'f obj" where
  "with_tags ts (OChoice l sf _ sh) = OChoice l sf ts sh"
| "with_tags ts (ORange a b c _ sh) = ORange a b c ts sh"
| "with_tags ts (OInterval a b _ sh) = OInterval a b ts sh"
| "with_tags ts ob = ob"

fun with_shuffle :: "bool \<Rightarrow> 'f obj \<Rightarrow> 'f obj" where
  "with_shuffle s (OChoice l sf ts _) = OChoice l sf ts s"
| "with_shuffle s (ORange a b c ts _) = ORange a b c ts s"
| "with_shuffle s (OInterval a b ts _) = OInterval a b ts s"
| "with_shuffle s ob = ob"

text \<open>
  \<^verbatim>\<open>choice\<close>: the promotion assigns to \<^verbatim>\<open>first.simple_form\<close> and returns \<^verbatim>\<open>first\<close>
  itself; otherwise \<^verbatim>\<open>list(args)\<close> and the sweep are new objects.
\<close>

definition choice_st :: "'f val list \<Rightarrow> 'f heap \<Rightarrow> 'f outcome" where
  "choice_st args h =
     (if length args = 1 \<and> is_ChoiceSweep_st h (hd args) \<and> simple_form_st h (hd args)
      then (Inr (hd args), modify h (hd args) (with_simple_form False))
      else if list_ex (is_ChoiceSweep_st h) args then (Inl HydraException, h)
      else (let (lst, h1) = alloc h (OList args);
                (sweep, h2) = alloc h1 (OChoice lst False {} False)
            in (Inr sweep, h2)))"

definition range_st :: "'f val \<Rightarrow> 'f val \<Rightarrow> 'f val \<Rightarrow> 'f heap \<Rightarrow> 'f outcome" where
  "range_st start stop step h =
     (let (sweep, h1) = alloc h (ORange start stop step {} False) in (Inr sweep, h1))"

definition interval_st :: "'f val \<Rightarrow> 'f val \<Rightarrow> 'f heap \<Rightarrow> 'f outcome" where
  "interval_st start end h =
     (let (sweep, h1) = alloc h (OInterval start end {} False) in (Inr sweep, h1))"

text \<open>\<^verbatim>\<open>tag\<close> assigns to \<^verbatim>\<open>sweep.tags\<close> of its last argument and returns that argument.\<close>

function tag_st :: "'f val list \<Rightarrow> 'f val \<Rightarrow> 'f heap \<Rightarrow> 'f outcome" where
  "tag_st args sweep h =
     (if length args < 1 then (Inl ValueError, h)
      else if sweep \<noteq> VNone then tag_st (args @ [sweep]) VNone h
      else if is_Sweep_st h (last args)
        then (if list_all is_str_st (butlast args)
              then (Inr (last args),
                    modify h (last args) (with_tags (set (map the_str_st (butlast args)))))
              else (Inl ValueError, h))
      else (Inl ValueError, h))"
  by pat_completeness auto
termination
  by (relation "measure (\<lambda>(args, sweep, h). if sweep = VNone then 0 else 1)") auto

declare tag_st.simps [simp del]

definition glob_st :: "'f val \<Rightarrow> 'f val \<Rightarrow> 'f heap \<Rightarrow> 'f outcome" where
  "glob_st include exclude h =
     (let (inc, h1) = (if is_str_st include then alloc h (OList [include]) else (include, h));
          (exc, h2) = (if exclude = VNone then alloc h1 (OList [])
                       else if is_str_st exclude then alloc h1 (OList [exclude])
                       else (exclude, h1));
          (g, h3) = alloc h2 (OGlob inc exc)
      in (Inr g, h3))"

text \<open>
  The builtins that look into the store: the comparison of two values of which one is an
  object, \<^verbatim>\<open>sorted\<close>, \<^verbatim>\<open>random.shuffle\<close> (on the elements of the list it is given) and
  the type check of \<^verbatim>\<open>_list_to_simple_choice\<close>. They read the store and return no store.
\<close>

record 'f store_builtins =
  gt_st :: "'f heap \<Rightarrow> 'f val \<Rightarrow> 'f val \<Rightarrow> exn + bool"
  lt_st :: "'f heap \<Rightarrow> 'f val \<Rightarrow> 'f val \<Rightarrow> exn + bool"
  sorted_st :: "'f heap \<Rightarrow> 'f val list \<Rightarrow> bool \<Rightarrow> exn + 'f val list"
  random_shuffle_st :: "rng \<Rightarrow> 'f val list \<Rightarrow> 'f val list \<times> rng"
  parsed_element_st :: "'f heap \<Rightarrow> 'f val \<Rightarrow> bool"

text \<open>
  \<^verbatim>\<open>_list_to_simple_choice\<close> fills a new list up to the first argument that fails the
  assertion, copies it with \<^verbatim>\<open>builtins.list\<close> and builds the sweep.
\<close>

definition list_to_simple_choice_st ::
  "'f store_builtins \<Rightarrow> 'f val list \<Rightarrow> 'f heap \<Rightarrow> 'f outcome" where
  "list_to_simple_choice_st Q args h =
     (let (choices, h1) = alloc h (OList (takeWhile (parsed_element_st Q h) args))
      in if list_all (parsed_element_st Q h) args
         then (let (lst, h2) = alloc h1 (OList args);
                   (sweep, h3) = alloc h2 (OChoice lst True {} False)
               in (Inr sweep, h3))
         else (Inl AssertionError, h1))"

definition normalize_cast_value_st ::
  "'f store_builtins \<Rightarrow> 'f val list \<Rightarrow> 'f val \<Rightarrow> 'f heap \<Rightarrow> 'f outcome" where
  "normalize_cast_value_st Q args v h =
     (if length args > 0 \<and> v \<noteq> VNone then (Inl TypeError, h)
      else if v \<noteq> VNone then (Inr v, h)
      else if length args = 0 then (Inl TypeError, h)
      else if length args = 1 then (Inr (args ! 0), h)
      else if length args > 1 then list_to_simple_choice_st Q args h
      else (Inl AssertionError, h))"

text \<open>
  The loops of \<^verbatim>\<open>apply_to_dict_values\<close> and \<^verbatim>\<open>cast_choice\<close> create the result first
  and add to it after each call of \<^verbatim>\<open>function\<close>; \<open>acc\<close> is what the result holds so far.
\<close>

fun fill_dict ::
  "('f val \<Rightarrow> 'f heap \<Rightarrow> 'f outcome) \<Rightarrow> ('f val \<times> 'f val) list \<Rightarrow> 'f val \<Rightarrow>
   ('f val \<times> 'f val) list \<Rightarrow> 'f heap \<Rightarrow> 'f outcome" where
  "fill_dict function [] ret_dict acc h = (Inr ret_dict, h)"
| "fill_dict function ((key, v) # rest) ret_dict acc h =
     (case function v h of
        (Inl e, h1) \<Rightarrow> (Inl e, h1)
      | (Inr r, h1) \<Rightarrow>
          fill_dict function rest ret_dict (acc @ [(key, r)])
            (store h1 ret_dict (ODict (acc @ [(key, r)]))))"

definition apply_to_dict_values_st ::
  "('f val \<times> 'f val) list \<Rightarrow> ('f val \<Rightarrow> 'f heap \<Rightarrow> 'f outcome) \<Rightarrow> 'f heap \<Rightarrow> 'f outcome" where
  "apply_to_dict_values_st items function h =
     (let (ret_dict, h1) = alloc h (ODict []) in fill_dict function items ret_dict [] h1)"

fun is_ElementType_st :: "'f heap \<Rightarrow> 'f val \<Rightarrow> bool" where
  "is_ElementType_st h VNone = False"
| "is_ElementType_st h (Ref a) =
     (case obj_at h (Ref a) of Some (OList _) \<Rightarrow> True | Some (ODict _) \<Rightarrow> True | _ \<Rightarrow> False)"
| "is_ElementType_st h _ = True"

fun fill_choices ::
  "('f val \<Rightarrow> 'f heap \<Rightarrow> 'f outcome) \<Rightarrow> 'f val list \<Rightarrow> 'f val \<Rightarrow> 'f val list \<Rightarrow>
   'f heap \<Rightarrow> 'f outcome" where
  "fill_choices function [] choices acc h = (Inr choices, h)"
| "fill_choices function (item # rest) choices acc h =
     (case function item h of
        (Inl e, h1) \<Rightarrow> (Inl e, h1)
      | (Inr c, h1) \<Rightarrow>
          if is_ElementType_st h1 c
          then fill_choices function rest choices (acc @ [c])
                 (store h1 choices (OList (acc @ [c])))
          else (Inl AssertionError, h1))"

definition cast_choice_st ::
  "'f val \<Rightarrow> ('f val \<Rightarrow> 'f heap \<Rightarrow> 'f outcome) \<Rightarrow> 'f heap \<Rightarrow> 'f outcome" where
  "cast_choice_st v function h =
     (case obj_at h v of
        Some (OChoice lst sf ts sh) \<Rightarrow>
          (let (choices, h1) = alloc h (OList []) in
           case obj_at h1 lst of
             Some (OList items) \<Rightarrow>
               (case fill_choices function items choices [] h1 of
                  (Inl e, h2) \<Rightarrow> (Inl e, h2)
                | (Inr cs, h2) \<Rightarrow>
                    (let (sweep, h3) = alloc h2 (OChoice cs sf {} False) in (Inr sweep, h3)))
           | _ \<Rightarrow> (Inl TypeError, h1))
      | _ \<Rightarrow> (Inl AttributeError, h))"

definition cast_interval_st :: "'f val \<Rightarrow> 'f heap \<Rightarrow> 'f outcome" where
  "cast_interval_st v h =
     (case obj_at h v of Some (OInterval _ _ _ _) \<Rightarrow> (Inl ValueError, h) | _ \<Rightarrow> (Inr VNone, h))"

definition cast_range_st ::
  "'f val \<Rightarrow> cast_fn \<Rightarrow> ('f val \<Rightarrow> 'f heap \<Rightarrow> 'f outcome) \<Rightarrow> 'f heap \<Rightarrow> 'f outcome" where
  "cast_range_st v fn function h =
     (if fn \<noteq> Cast_float \<and> fn \<noteq> Cast_int then (Inl HydraException, h)
      else (case obj_at h v of
         Some (ORange start stop step ts sh) \<Rightarrow>
           (case function start h of
              (Inl e, h1) \<Rightarrow> (Inl e, h1)
            | (Inr start', h1) \<Rightarrow>
           (case function stop h1 of
              (Inl e, h2) \<Rightarrow> (Inl e, h2)
            | (Inr stop', h2) \<Rightarrow>
           (case function step h2 of
              (Inl e, h3) \<Rightarrow> (Inl e, h3)
            | (Inr step', h3) \<Rightarrow>
                (let (sweep, h4) = alloc h3 (ORange start' stop' step' {} False)
                 in (Inr sweep, h4)))))
       | _ \<Rightarrow> (Inl AttributeError, h)))"

definition scalar_st :: "'f builtins \<Rightarrow> cast_fn \<Rightarrow> 'f val \<Rightarrow> exn + 'f val" where
  "scalar_st P fn v =
     (case imm v of
        Some e \<Rightarrow> map_sum id val_of (scalar P fn e)
      | None \<Rightarrow> if fn = Cast_bool then Inr (VBool True) else Inl AssertionError)"

fun map_st ::
  "('f val \<Rightarrow> 'f heap \<Rightarrow> 'f outcome) \<Rightarrow> 'f val list \<Rightarrow> 'f heap \<Rightarrow> (exn + 'f val list) \<times> 'f heap" where
  "map_st function [] h = (Inr [], h)"
| "map_st function (x # xs) h =
     (case function x h of
        (Inl e, h1) \<Rightarrow> (Inl e, h1)
      | (Inr y, h1) \<Rightarrow>
          (case map_st function xs h1 of
             (Inl e, h2) \<Rightarrow> (Inl e, h2)
           | (Inr ys, h2) \<Rightarrow> (Inr (y # ys), h2)))"

text \<open>
  The body of a cast function. It follows references, so its recursion is bounded by the
  depth the interpreter allows: at depth zero the call raises \<^verbatim>\<open>RecursionError\<close>.
\<close>

fun cast_body_st :: "'f builtins \<Rightarrow> cast_fn \<Rightarrow> nat \<Rightarrow> 'f val \<Rightarrow> 'f heap \<Rightarrow> 'f outcome" where
  "cast_body_st P fn 0 v h = (Inl RecursionError, h)"
| "cast_body_st P fn (Suc depth) v h =
     (case obj_at h v of
        Some (OQuoted text) \<Rightarrow> cast_body_st P fn depth (VStr text) h
      | Some (ODict items) \<Rightarrow> apply_to_dict_values_st items (cast_body_st P fn depth) h
      | Some (OList xs) \<Rightarrow>
          (case map_st (cast_body_st P fn depth) xs h of
             (Inl e, h1) \<Rightarrow> (Inl e, h1)
           | (Inr ys, h1) \<Rightarrow> (let (lst, h2) = alloc h1 (OList ys) in (Inr lst, h2)))
      | Some (OChoice lst sf ts sh) \<Rightarrow> cast_choice_st v (cast_body_st P fn depth) h
      | Some (ORange start stop step ts sh) \<Rightarrow> cast_range_st v fn (cast_body_st P fn depth) h
      | Some (OInterval start end ts sh) \<Rightarrow> cast_interval_st v h
      | _ \<Rightarrow> (scalar_st P fn v, h))"

definition cast_st ::
  "'f store_builtins \<Rightarrow> 'f builtins \<Rightarrow> cast_fn \<Rightarrow> nat \<Rightarrow> 'f val list \<Rightarrow> 'f val \<Rightarrow>
   'f heap \<Rightarrow> 'f outcome" where
  "cast_st Q P fn depth args v h =
     (case normalize_cast_value_st Q args v h of
        (Inl e, h1) \<Rightarrow> (Inl e, h1)
      | (Inr x, h1) \<Rightarrow> cast_body_st P fn depth x h1)"

text \<open>\<^verbatim>\<open>copy(v)\<close>: a new object with the same fields; a scalar is returned as it is.\<close>

definition copy :: "'f val \<Rightarrow> 'f heap \<Rightarrow> 'f val \<times> 'f heap" where
  "copy v h = (case obj_at h v of Some ob \<Rightarrow> alloc h ob | None \<Rightarrow> (v, h))"

function shuffle_st ::
  "'f store_builtins \<Rightarrow> rng \<Rightarrow> 'f val list \<Rightarrow> 'f val \<Rightarrow> 'f val \<Rightarrow> 'f heap \<Rightarrow>
   'f outcome \<times> rng" where
  "shuffle_st Q g args sweep lst h =
     (if lst \<noteq> VNone then shuffle_st Q g [lst] VNone VNone h
      else if sweep \<noteq> VNone then shuffle_st Q g [sweep] VNone VNone h
      else if length args = 1 then
        (let arg = args ! 0 in
         if is_ChoiceSweep_st h arg \<or> is_RangeSweep_st h arg
         then (let (sweep', h1) = copy arg h
               in ((Inr sweep', modify h1 sweep' (with_shuffle True)), g))
         else (case obj_at h arg of
                 Some (OList xs) \<Rightarrow>
                   (let (lst', h1) = copy arg h;
                        (ys, g') = random_shuffle_st Q g xs
                    in ((Inr lst', store h1 lst' (OList ys)), g'))
               | _ \<Rightarrow> (let (lst', h1) = alloc h (OList [arg]) in ((Inr lst', h1), g))))
      else (case list_to_simple_choice_st Q args h of
              (Inl e, h1) \<Rightarrow> ((Inl e, h1), g)
            | (Inr simple_choice, h1) \<Rightarrow>
                ((Inr simple_choice, modify h1 simple_choice (with_shuffle True)), g)))"
  by pat_completeness auto
termination
  by (relation "measure (\<lambda>(Q, g, args, sweep, lst, h).
        if lst \<noteq> VNone then 2 else if sweep \<noteq> VNone then 1 else 0)") auto

declare shuffle_st.simps [simp del]

text \<open>Arithmetic and comparison of two fields of a range held in the store.\<close>

definition arith2 ::
  "('f elem \<Rightarrow> 'f elem \<Rightarrow> 'f result) \<Rightarrow> 'f val \<Rightarrow> 'f val \<Rightarrow> exn + 'f val" where
  "arith2 op a b = (case (imm a, imm b) of
      (Some x, Some y) \<Rightarrow> map_sum id val_of (op x y) | _ \<Rightarrow> Inl TypeError)"

definition arith1 :: "('f elem \<Rightarrow> 'f result) \<Rightarrow> 'f val \<Rightarrow> exn + 'f val" where
  "arith1 op a = (case imm a of Some x \<Rightarrow> map_sum id val_of (op x) | None \<Rightarrow> Inl TypeError)"

definition compare_st ::
  "('f elem \<Rightarrow> 'f elem \<Rightarrow> exn + bool) \<Rightarrow> ('f heap \<Rightarrow> 'f val \<Rightarrow> 'f val \<Rightarrow> exn + bool) \<Rightarrow>
   'f heap \<Rightarrow> 'f val \<Rightarrow> 'f val \<Rightarrow> exn + bool" where
  "compare_st cmp cmp_ref h a b = (case (imm a, imm b) of
      (Some x, Some y) \<Rightarrow> cmp x y | _ \<Rightarrow> cmp_ref h a b)"

text \<open>
  The reversal of a range by \<^verbatim>\<open>_sort_sweep\<close>, on the copy: the new start and stop are
  computed and assigned, then the step is negated and assigned.
\<close>

definition flip_range ::
  "'f builtins \<Rightarrow> ('f elem \<Rightarrow> 'f elem \<Rightarrow> 'f result) \<Rightarrow> 'f val \<Rightarrow> 'f obj \<Rightarrow> 'f heap \<Rightarrow> 'f outcome" where
  "flip_range P shift sweep ob h =
     (case ob of
        ORange start stop step ts sh \<Rightarrow>
          (case bind_exn (arith1 (py_abs P) step) (\<lambda>a. arith2 shift stop a) of
             Inl e \<Rightarrow> (Inl e, h)
           | Inr start' \<Rightarrow>
          (case bind_exn (arith1 (py_abs P) step) (\<lambda>a. arith2 shift start a) of
             Inl e \<Rightarrow> (Inl e, h)
           | Inr stop' \<Rightarrow>
               (let h1 = store h sweep (ORange start' stop' step ts sh) in
                case arith1 (py_neg P) step of
                  Inl e \<Rightarrow> (Inl e, h1)
                | Inr step' \<Rightarrow> (Inr sweep, store h1 sweep (ORange start' stop' step' ts sh)))))
      | _ \<Rightarrow> (Inl AssertionError, h))"

definition sort_sweep_st ::
  "'f store_builtins \<Rightarrow> 'f builtins \<Rightarrow> 'f val \<Rightarrow> bool \<Rightarrow> 'f heap \<Rightarrow> 'f outcome" where
  "sort_sweep_st Q P sweep0 reverse h =
     (let (sweep, h1) = copy sweep0 h in
      case obj_at h1 sweep of
        Some (OChoice lst sf ts sh) \<Rightarrow>
          (case obj_at h1 lst of
             Some (OList xs) \<Rightarrow>
               (case sorted_st Q h1 xs reverse of
                  Inl e \<Rightarrow> (Inl e, h1)
                | Inr ys \<Rightarrow>
                    (let (lst', h2) = alloc h1 (OList ys)
                     in (Inr sweep, store h2 sweep (OChoice lst' sf ts sh))))
           | _ \<Rightarrow> (Inl TypeError, h1))
      | Some (ORange start stop step ts sh) \<Rightarrow>
          (if start = VNone \<or> stop = VNone then (Inl AssertionError, h1)
           else if \<not> reverse then
             (case compare_st (py_gt P) (gt_st Q) h1 start stop of
                Inl e \<Rightarrow> (Inl e, h1)
              | Inr gt \<Rightarrow>
                  if gt then flip_range P (py_add P) sweep (ORange start stop step ts sh) h1
                  else (Inr sweep, h1))
           else
             (case compare_st (py_lt P) (lt_st Q) h1 start stop of
                Inl e \<Rightarrow> (Inl e, h1)
              | Inr lt \<Rightarrow>
                  if lt then flip_range P (py_sub P) sweep (ORange start stop step ts sh) h1
                  else (Inr sweep, h1)))
      | _ \<Rightarrow> (Inl AssertionError, h1))"

fun is_primitive_st :: "'f val \<Rightarrow> bool" where
  "is_primitive_st VNone = False"
| "is_primitive_st (Ref a) = False"
| "is_primitive_st _ = True"

function sort_st ::
  "'f store_builtins \<Rightarrow> 'f builtins \<Rightarrow> 'f val list \<Rightarrow> 'f val \<Rightarrow> bool \<Rightarrow> 'f val \<Rightarrow> 'f heap \<Rightarrow>
   'f outcome" where
  "sort_st Q P args sweep reverse lst h =
     (if lst \<noteq> VNone then sort_st Q P [lst] VNone reverse VNone h
      else if sweep \<noteq> VNone then sort_sweep_st Q P sweep reverse h
      else if length args = 1 then
        (let arg = args ! 0 in
         if is_ChoiceSweep_st h arg \<or> is_RangeSweep_st h arg then sort_sweep_st Q P arg reverse h
         else (case obj_at h arg of
                 Some (OList xs) \<Rightarrow>
                   (case sorted_st Q h xs reverse of
                      Inl e \<Rightarrow> (Inl e, h)
                    | Inr ys \<Rightarrow> (let (lst', h1) = alloc h (OList ys) in (Inr lst', h1)))
               | _ \<Rightarrow> (Inl TypeError, h)))
      else if \<not> list_all is_primitive_st args then (Inl TypeError, h)
      else (case list_to_simple_choice_st Q args h of
              (Inl e, h1) \<Rightarrow> (Inl e, h1)
            | (Inr cw, h1) \<Rightarrow> sort_sweep_st Q P cw reverse h1))"
  by pat_completeness auto
termination
  by (relation "measure (\<lambda>(Q, P, args, sweep, reverse, lst, h). if lst \<noteq> VNone then 1 else 0)") auto

declare sort_st.simps [simp del]

definition cast_int_st ::
  "'f store_builtins \<Rightarrow> 'f builtins \<Rightarrow> nat \<Rightarrow> 'f val list \<Rightarrow> 'f val \<Rightarrow> 'f heap \<Rightarrow> 'f outcome" where
  "cast_int_st Q P = cast_st Q P Cast_int"

definition cast_float_st ::
  "'f store_builtins \<Rightarrow> 'f builtins \<Rightarrow> nat \<Rightarrow> 'f val list \<Rightarrow> 'f val \<Rightarrow> 'f heap \<Rightarrow> 'f outcome" where
  "cast_float_st Q P = cast_st Q P Cast_float"

definition cast_str_st ::
  "'f store_builtins \<Rightarrow> 'f builtins \<Rightarrow> nat \<Rightarrow> 'f val list \<Rightarrow> 'f val \<Rightarrow> 'f heap \<Rightarrow> 'f outcome" where
  "cast_str_st Q P = cast_st Q P Cast_str"

definition cast_bool_st ::
  "'f store_builtins \<Rightarrow> 'f builtins \<Rightarrow> nat \<Rightarrow> 'f val list \<Rightarrow> 'f val \<Rightarrow> 'f heap \<Rightarrow> 'f outcome" where
  "cast_bool_st Q P = cast_st Q P Cast_bool"

text \<open>
  A call leaves the store alone when the store after it extends the store before it, so
  that every object that existed is unchanged; its result is new when it is not a
  reference into the old store.
\<close>

definition fresh :: "'f heap \<Rightarrow> 'f outcome \<Rightarrow> bool" where
  "fresh h out \<longleftrightarrow>
     prefix h (snd out) \<and> (\<forall>a. fst out = Inr (Ref a) \<longrightarrow> length h \<le> a \<and> a < length (snd out))"

definition preserving :: "('f val \<Rightarrow> 'f heap \<Rightarrow> 'f outcome) \<Rightarrow> bool" where
  "preserving function \<longleftrightarrow> (\<forall>v h. fresh h (function v h))"

section \<open>An instance of the builtins\<close>

text \<open>
  To run the model on concrete inputs the parameters need values. In this instance a
  float is represented by an integer (only integral floats occur), a string converts to
  a number when it is a non-empty run of decimal digits, \<^verbatim>\<open>sorted\<close> orders lists of
  integers and raises on anything else, \<^verbatim>\<open>random.shuffle\<close> rotates the list by the
  state of the generator, and every value but a sweep is a parsed element.
\<close>

fun digit_of :: "char \<Rightarrow> int option" where
  "digit_of c = map_of (zip ''0123456789'' [0, 1, 2, 3, 4, 5, 6, 7, 8, 9]) c"

definition parse_int :: "string \<Rightarrow> exn + int" where
  "parse_int s =
     (if s \<noteq> [] \<and> list_all (\<lambda>c. digit_of c \<noteq> None) s
      then Inr (foldl (\<lambda>n c. 10 * n + the (digit_of c)) 0 s)
      else Inl ValueError)"

fun int_of_elem :: "int elem \<Rightarrow> int option" where
  "int_of_elem (IntV n) = Some n"
| "int_of_elem _ = None"

definition example_builtins :: "int builtins" where
  "example_builtins =
     \<lparr> int_float = Inr, int_str = parse_int, float_int = Inr, float_str = parse_int,
       str_int = (\<lambda>n. Inl ValueError), str_float = (\<lambda>x. []), bool_float = (\<lambda>x. x \<noteq> 0),
       gt_other = (\<lambda>a b. Inl TypeError), lt_other = (\<lambda>a b. Inl TypeError),
       add_other = (\<lambda>a b. Inl TypeError), sub_other = (\<lambda>a b. Inl TypeError),
       abs_other = (\<lambda>a. Inl TypeError), neg_other = (\<lambda>a. Inl TypeError),
       py_sorted = (\<lambda>xs reverse.
          if list_all (\<lambda>x. int_of_elem x \<noteq> None) xs
          then Inr (map IntV ((if reverse then rev else id) (sort (map (the \<circ> int_of_elem) xs))))
          else Inl TypeError),
       random_shuffle = (\<lambda>g xs. (rotate (g mod (length xs + 1)) xs, Suc g)),
       parsed_element = (\<lambda>v. \<not> is_Sweep v) \<rparr>"

fun int_of_val :: "int val \<Rightarrow> int option" where
  "int_of_val (VInt n) = Some n"
| "int_of_val _ = None"

definition example_store_builtins :: "int store_builtins" where
  "example_store_builtins =
     \<lparr> gt_st = (\<lambda>h a b. Inl TypeError), lt_st = (\<lambda>h a b. Inl TypeError),
       sorted_st = (\<lambda>h xs reverse.
          if list_all (\<lambda>x. int_of_val x \<noteq> None) xs
          then Inr (map VInt ((if reverse then rev else id) (sort (map (the \<circ> int_of_val) xs))))
          else Inl TypeError),
       random_shuffle_st = (\<lambda>g xs. (rotate (g mod (length xs + 1)) xs, Suc g)),
       parsed_element_st = (\<lambda>h v. \<not> is_Sweep_st h v) \<rparr>"

text \<open>
  Two strings are equal when case is ignored: they have the same length and their
  characters agree position by position once lowered. This is the spec's reading of the
  comparison made by \<^verbatim>\<open>cast_bool\<close>, which the source writes with \<^verbatim>\<open>value.lower()\<close>.
\<close>

definition equal_ignoring_case :: "string \<Rightarrow> string \<Rightarrow> bool" where
  "equal_ignoring_case s t = list_all2 (\<lambda>a b. lower_char a = lower_char b) s t"

section \<open>Properties of the casting engine and the constructors\<close>

lemma cast_one_positional: "cast P fn [x] NoneV = cast_body P fn x"
  by (simp add: cast_def normalize_cast_value_def bind_exn_def)

lemma cast_body_QuotedString: "cast_body P fn (QuotedString text) = cast_body P fn (StrV text)"
  by simp

lemma lower_literal: "lower ''true'' = ''true''" "lower ''false'' = ''false''"
  by (simp_all add: lower_def lower_char_def)

lemma equal_ignoring_case_lower: "equal_ignoring_case s t \<longleftrightarrow> lower s = lower t"
  unfolding equal_ignoring_case_def lower_def
  by (induction s arbitrary: t) (auto simp: list_all2_Cons1)

lemma lower_char_cases:
  "lower_char c = CHR ''t'' \<longleftrightarrow> c = CHR ''t'' \<or> c = CHR ''T''"
  "lower_char c = CHR ''r'' \<longleftrightarrow> c = CHR ''r'' \<or> c = CHR ''R''"
  "lower_char c = CHR ''u'' \<longleftrightarrow> c = CHR ''u'' \<or> c = CHR ''U''"
  "lower_char c = CHR ''e'' \<longleftrightarrow> c = CHR ''e'' \<or> c = CHR ''E''"
  by (auto simp: lower_char_def split: if_splits)

lemma lower_char_literal:
  "lower_char CHR ''t'' = CHR ''t''" "lower_char CHR ''r'' = CHR ''r''"
  "lower_char CHR ''u'' = CHR ''u''" "lower_char CHR ''e'' = CHR ''e''"
  by (simp_all add: lower_char_def)

lemma list_all2_four:
  "list_all2 R s [w, x, y, z] \<longleftrightarrow>
     (\<exists>a b c d. s = [a, b, c, d] \<and> R a w \<and> R b x \<and> R c y \<and> R d z)"
  by (auto simp: list_all2_Cons2)

text \<open>The strings equal to \<^verbatim>\<open>true\<close> when case is ignored are its sixteen spellings.\<close>

lemma equal_ignoring_case_true:
  "equal_ignoring_case s ''true'' \<longleftrightarrow>
     (\<exists>a b c d. s = [a, b, c, d] \<and> a \<in> {CHR ''t'', CHR ''T''} \<and> b \<in> {CHR ''r'', CHR ''R''}
        \<and> c \<in> {CHR ''u'', CHR ''U''} \<and> d \<in> {CHR ''e'', CHR ''E''})"
  unfolding equal_ignoring_case_def
  by (simp add: list_all2_four lower_char_literal lower_char_cases)

lemma tag_positional:
  "args \<noteq> [] \<Longrightarrow> tag args NoneV =
     (if is_Sweep (last args)
      then (if list_all is_str (butlast args)
            then Inr (set_tags (set (map the_str (butlast args))) (last args))
            else Inl ValueError)
      else Inl ValueError)"
  by (subst tag.simps) simp

text \<open>
  C3, as stated, fails: \<^verbatim>\<open>tag(choice(1,2))\<close>, a lone positional sweep, succeeds with the
  empty tag set, and \<^verbatim>\<open>tag(sweep=choice(1,2))\<close>, the keyword form without positional
  arguments, raises \<^verbatim>\<open>ValueError\<close>, because the count of positional arguments is
  checked before the keyword is looked at.
\<close>

theorem tag_lone_sweep_counterexample:
  "tag [ChoiceSweep [IntV 1, IntV 2] False {} False] NoneV
     = (Inr (ChoiceSweep [IntV 1, IntV 2] False {} False) :: int result)
   \<and> tag [] (ChoiceSweep [IntV 1, IntV 2] False {} False) = (Inl ValueError :: int result)"
  by (simp add: tag.simps)

text \<open>
  C3, amended. \<^verbatim>\<open>tag\<close> called with strings followed by a sweep as last positional
  argument returns that sweep with its tag set equal to the set of those strings; a lone
  positional sweep gets the empty tag set. \<^verbatim>\<open>tag\<close> raises \<^verbatim>\<open>ValueError\<close> when called
  with no argument at all, when an argument before the last is not a string, and when the
  last value is not a sweep. With positional arguments, a sweep given by keyword is
  treated as the last positional argument.
\<close>

theorem tag_amended:
  fixes s kw :: "'f elem" and strs args :: "'f elem list"
  shows
  "(list_all is_str strs \<and> is_Sweep s \<longrightarrow>
      tag (strs @ [s]) NoneV = Inr (set_tags (set (map the_str strs)) s)
      \<and> tags (set_tags (set (map the_str strs)) s) = set (map the_str strs))
   \<and> (is_Sweep s \<longrightarrow> tag [s] NoneV = Inr (set_tags {} s))
   \<and> tag [] NoneV = (Inl ValueError :: 'f result)
   \<and> (is_Sweep s \<and> \<not> list_all is_str strs \<longrightarrow> tag (strs @ [s]) NoneV = Inl ValueError)
   \<and> (args \<noteq> [] \<and> \<not> is_Sweep (last args) \<longrightarrow> tag args NoneV = Inl ValueError)
   \<and> (args \<noteq> [] \<and> kw \<noteq> NoneV \<longrightarrow> tag args kw = tag (args @ [kw]) NoneV)"
proof -
  have a: "tag (xs @ [s]) NoneV =
     (if is_Sweep s then (if list_all is_str xs
            then Inr (set_tags (set (map the_str xs)) s) else Inl ValueError)
      else Inl ValueError)" for xs :: "'f elem list"
    by (simp add: tag_positional)
  have b: "is_Sweep s \<Longrightarrow> tags (set_tags ts s) = ts" for ts
    by (cases s) simp_all
  have 1: "list_all is_str strs \<and> is_Sweep s \<longrightarrow>
      tag (strs @ [s]) NoneV = Inr (set_tags (set (map the_str strs)) s)
      \<and> tags (set_tags (set (map the_str strs)) s) = set (map the_str strs)"
    by (simp add: a b)
  have 2: "is_Sweep s \<longrightarrow> tag [s] NoneV = Inr (set_tags {} s)"
    using a [of "[]"] by simp
  have 3: "tag [] NoneV = (Inl ValueError :: 'f result)"
    by (subst tag.simps) simp
  have 4: "is_Sweep s \<and> \<not> list_all is_str strs \<longrightarrow> tag (strs @ [s]) NoneV = Inl ValueError"
    by (simp add: a)
  have 5: "args \<noteq> [] \<and> \<not> is_Sweep (last args) \<longrightarrow> tag args NoneV = Inl ValueError"
    by (simp add: tag_positional)
  have 6: "args \<noteq> [] \<and> kw \<noteq> NoneV \<longrightarrow> tag args kw = tag (args @ [kw]) NoneV"
    by (subst tag.simps) simp
  from 1 2 3 4 5 6 show ?thesis by blast
qed

theorem tag_amended_witness:
  "tag [StrV ''a'', StrV ''b'', StrV ''a'', ChoiceSweep [IntV 1, IntV 2] False {} False] NoneV
     = (Inr (ChoiceSweep [IntV 1, IntV 2] False {''a'', ''b''} False) :: int result)
   \<and> tag [StrV ''a'', IntV 3] NoneV = (Inl ValueError :: int result)"
proof -
  let ?c = "ChoiceSweep [IntV 1, IntV 2] False {} False :: int elem"
  let ?strs = "[StrV ''a'', StrV ''b'', StrV ''a''] :: int elem list"
  let ?args = "[StrV ''a'', IntV 3] :: int elem list"
  note t = tag_amended [of ?strs ?c ?args NoneV]
  have h: "list_all is_str ?strs \<and> is_Sweep ?c" by simp
  have "tag (?strs @ [?c]) NoneV = Inr (set_tags (set (map the_str ?strs)) ?c)"
    using t h by blast
  moreover have "set (map the_str ?strs) = {''a'', ''b''}" by auto
  ultimately have 1: "tag (?strs @ [?c]) NoneV = Inr (ChoiceSweep [IntV 1, IntV 2] False {''a'', ''b''} False)"
    by simp
  have "?args \<noteq> [] \<and> \<not> is_Sweep (last ?args)" by simp
  then have 2: "tag ?args NoneV = Inl ValueError" using t by blast
  from 1 2 show ?thesis by simp
qed

text \<open>
  C5, as stated, fails: \<^verbatim>\<open>choice\<close> raises for a simple-form \<^verbatim>\<open>ChoiceSweep\<close> too, when
  it is not the only argument, so the error does not need a sweep in explicit form.
  Read as calls, \<^verbatim>\<open>choice(choice(1,2,3))\<close> raises as well: the inner call returns a sweep
  in explicit form.
\<close>

theorem choice_rejects_simple_counterexample:
  "choice [ChoiceSweep [IntV 1, IntV 2] True {} False, IntV 3] = (Inl HydraException :: int result)
   \<and> \<not> list_ex (\<lambda>a. is_ChoiceSweep a \<and> \<not> simple_form a)
         [ChoiceSweep [IntV 1, IntV 2] True {} False, IntV 3 :: int elem]
   \<and> bind_exn (choice [IntV 1, IntV 2, IntV 3]) (\<lambda>c. choice [c]) = (Inl HydraException :: int result)"
  by (simp add: choice_def bind_exn_def new_ChoiceSweep_def)

text \<open>
  C5, amended. \<^verbatim>\<open>choice\<close> with exactly one argument that is a simple-form
  \<^verbatim>\<open>ChoiceSweep\<close> returns that sweep in explicit form, its other fields unchanged;
  \<^verbatim>\<open>choice\<close> raises \<^verbatim>\<open>HydraException\<close> exactly when some argument is a \<^verbatim>\<open>ChoiceSweep\<close>
  that is not a lone simple-form one; otherwise it builds a new sweep in explicit form
  whose list is the arguments in order.
\<close>

theorem choice_amended:
  fixes lst args :: "'f elem list"
  shows
  "(choice [ChoiceSweep lst True ts sh] = Inr (ChoiceSweep lst False ts sh))
   \<and> (choice args = Inl HydraException \<longleftrightarrow>
        list_ex is_ChoiceSweep args \<and> \<not> (length args = 1 \<and> simple_form (hd args)))
   \<and> (\<not> list_ex is_ChoiceSweep args \<longrightarrow> choice args = Inr (ChoiceSweep args False {} False))"
proof -
  have "length args = 1 \<Longrightarrow> list_ex is_ChoiceSweep args = is_ChoiceSweep (hd args)"
    by (cases args) auto
  then show ?thesis
    by (auto simp: choice_def new_ChoiceSweep_def)
qed

theorem choice_amended_witness:
  "choice [ChoiceSweep [IntV 1, IntV 2, IntV 3] True {} False]
     = (Inr (ChoiceSweep [IntV 1, IntV 2, IntV 3] False {} False) :: int result)
   \<and> choice [IntV 1, IntV 2, IntV 3] = (Inr (ChoiceSweep [IntV 1, IntV 2, IntV 3] False {} False) :: int result)"
proof -
  let ?l = "[IntV 1, IntV 2, IntV 3] :: int elem list"
  note t = choice_amended [of ?l "{}" False ?l]
  have "\<not> list_ex is_ChoiceSweep ?l" by simp
  with t have "choice ?l = Inr (ChoiceSweep ?l False {} False)" by blast
  moreover from t have "choice [ChoiceSweep ?l True {} False] = Inr (ChoiceSweep ?l False {} False)"
    by blast
  ultimately show ?thesis by simp
qed

text \<open>
  C6, as stated, fails for more than one positional argument: \<^verbatim>\<open>_list_to_simple_choice\<close>
  asserts that each argument is a \<^verbatim>\<open>ParsedElementType\<close>. A sweep is a legal argument of a
  cast function (\<^verbatim>\<open>CastType\<close> is the union of \<^verbatim>\<open>ParsedElementType\<close> and \<^verbatim>\<open>Sweep\<close>) and
  is not one, so \<^verbatim>\<open>cast_int(choice(1), 2)\<close> raises \<^verbatim>\<open>AssertionError\<close>: nothing is
  collapsed and nothing is cast.
\<close>

theorem cast_collapse_asserts_counterexample:
  "cast_int example_builtins [ChoiceSweep [IntV 1] False {} False, IntV 2] NoneV
     = Inl AssertionError"
  by (simp add: cast_int_def cast_def normalize_cast_value_def list_to_simple_choice_def
      bind_exn_def example_builtins_def)

text \<open>
  C6, amended. For each of \<^verbatim>\<open>cast_int\<close>, \<^verbatim>\<open>cast_float\<close>, \<^verbatim>\<open>cast_str\<close> and
  \<^verbatim>\<open>cast_bool\<close>: positional arguments together with the named \<^verbatim>\<open>value\<close> raise
  \<^verbatim>\<open>TypeError\<close>; neither of them raises \<^verbatim>\<open>TypeError\<close>; a single positional argument (or
  the named value alone) is cast; more than one positional argument is first collapsed
  into a simple-form \<^verbatim>\<open>ChoiceSweep\<close>, which is then cast, when every argument is a parsed
  element, and raises \<^verbatim>\<open>AssertionError\<close> otherwise.
\<close>

theorem cast_argument_forms:
  "\<forall>(f, fn) \<in> set [(cast_int P, Cast_int), (cast_float P, Cast_float),
                     (cast_str P, Cast_str), (cast_bool P, Cast_bool)].
     (args \<noteq> [] \<and> v \<noteq> NoneV \<longrightarrow> f args v = Inl TypeError)
   \<and> f [] NoneV = Inl TypeError
   \<and> f [x] NoneV = cast_body P fn x
   \<and> (v \<noteq> NoneV \<longrightarrow> f [] v = cast_body P fn v)
   \<and> (length args > 1 \<longrightarrow> f args NoneV =
         (if list_all (parsed_element P) args
          then cast_body P fn (ChoiceSweep args True {} False)
          else Inl AssertionError))"
  by (simp add: cast_int_def cast_float_def cast_str_def cast_bool_def cast_def
      normalize_cast_value_def bind_exn_def list_to_simple_choice_def new_ChoiceSweep_def)

theorem cast_argument_forms_witness:
  "cast_int example_builtins [IntV 1] (IntV 2) = Inl TypeError
   \<and> cast_float example_builtins [] NoneV = Inl TypeError
   \<and> cast_str example_builtins [BoolV True] NoneV = Inr (StrV ''true'')
   \<and> cast_bool example_builtins [] (StrV ''False'') = Inr (BoolV False)
   \<and> cast_int example_builtins [StrV ''12'', BoolV True] NoneV
       = Inr (ChoiceSweep [IntV 12, IntV 1] True {} False)"
  using cast_argument_forms [of example_builtins "[IntV 1]" "IntV 2" "BoolV True"]
    cast_argument_forms [of example_builtins "[]" "StrV ''False''" "BoolV True"]
    cast_argument_forms [of example_builtins "[StrV ''12'', BoolV True]" NoneV "BoolV True"]
  by (simp add: example_builtins_def parse_int_def new_ChoiceSweep_def bind_exn_def
      lower_def lower_char_def)

text \<open>
  What \<^verbatim>\<open>cast_choice\<close> returns in general: the items cast one by one, in order, the
  form of the sweep kept, the tags and the shuffle flag those of a new sweep.
\<close>

lemma sequence_Inr:
  "sequence ms = Inr ys \<Longrightarrow> list_all2 (\<lambda>m y. m = Inr y) ms ys"
  by (induction ms arbitrary: ys) (auto split: sum.splits)

lemma cast_choice_result:
  assumes "cast P fn [ChoiceSweep lst sf ts sh] NoneV = Inr r"
  shows "\<exists>lst'. r = ChoiceSweep lst' sf {} False
           \<and> list_all2 (\<lambda>x y. cast_body P fn x = Inr y) lst lst'"
proof -
  let ?g = "\<lambda>item. bind_exn (cast_body P fn item)
             (\<lambda>c. if is_ElementType c then Inr c else Inl AssertionError)"
  from assms obtain lst' where s: "sequence (map ?g lst) = Inr lst'"
    and r: "r = ChoiceSweep lst' sf {} False"
    by (auto simp: cast_one_positional new_ChoiceSweep_def split: sum.splits)
  from sequence_Inr [OF s] have "list_all2 (\<lambda>x y. ?g x = Inr y) lst lst'"
    by (simp add: list_all2_map1)
  then have "list_all2 (\<lambda>x y. cast_body P fn x = Inr y) lst lst'"
    by (rule list_all2_mono) (auto simp: bind_exn_def split: sum.splits if_splits)
  with r show ?thesis by blast
qed

text \<open>
  C4. The claim has the cast of a \<^verbatim>\<open>ChoiceSweep\<close> keep \<^verbatim>\<open>simple_form\<close>, \<^verbatim>\<open>tags\<close> and
  \<^verbatim>\<open>shuffle\<close>. \<^verbatim>\<open>cast_choice\<close> builds its result from \<^verbatim>\<open>simple_form\<close> and the new list
  only: cast to \<^verbatim>\<open>int\<close>, the sweep of \<^verbatim>\<open>'1'\<close> and \<^verbatim>\<open>'2'\<close> with tag \<^verbatim>\<open>a\<close> and the
  shuffle flag set comes back with no tag and the flag off. \<^verbatim>\<open>sort\<close>, which copies
  the sweep, keeps both.
\<close>

theorem cast_choice_drops_tags_and_shuffle:
  "cast_int example_builtins [ChoiceSweep [StrV ''1'', StrV ''2''] False {''a''} True] NoneV
     = Inr (ChoiceSweep [IntV 1, IntV 2] False {} False)
   \<and> sort_py example_builtins [ChoiceSweep [IntV 2, IntV 1] False {''a''} True] NoneV False NoneV
     = Inr (ChoiceSweep [IntV 1, IntV 2] False {''a''} True)"
  by (simp add: cast_int_def cast_one_positional bind_exn_def new_ChoiceSweep_def
      example_builtins_def parse_int_def sort_py.simps)

text \<open>
  C7, as stated, fails: \<^verbatim>\<open>cast_int\<close> and \<^verbatim>\<open>cast_float\<close> do not succeed on every
  \<^verbatim>\<open>RangeSweep\<close>. The start and the stop of a range may be \<^verbatim>\<open>None\<close> (\<^verbatim>\<open>_sort_sweep\<close>
  asserts that they are not); \<^verbatim>\<open>cast_range\<close> then calls \<^verbatim>\<open>cast_int\<close> on \<^verbatim>\<open>None\<close>, which
  fails its assertion.
\<close>

theorem cast_int_range_None_counterexample:
  "cast_int example_builtins [RangeSweep NoneV NoneV (IntV 1) {} False] NoneV
     = Inl AssertionError"
  by (simp add: cast_int_def cast_one_positional bind_exn_def)

text \<open>
  C7, amended. On a \<^verbatim>\<open>RangeSweep\<close>, \<^verbatim>\<open>cast_str\<close> and \<^verbatim>\<open>cast_bool\<close> raise the error of
  \<^verbatim>\<open>cast_range\<close> (a \<^verbatim>\<open>HydraException\<close>, \<^verbatim>\<open>Range can only be cast to int or float\<close>), while
  \<^verbatim>\<open>cast_int\<close> and \<^verbatim>\<open>cast_float\<close> cast start, stop and step one after the other with
  the same function; they succeed exactly when the three casts succeed and then return
  the range of the three results. With integer fields \<^verbatim>\<open>cast_int\<close> always succeeds and
  \<^verbatim>\<open>cast_float\<close> succeeds when the three integers convert. On an \<^verbatim>\<open>IntervalSweep\<close> each of
  the four functions raises the error of \<^verbatim>\<open>cast_interval\<close> (a \<^verbatim>\<open>ValueError\<close>, intervals
  cannot be cast), whatever the target type.
\<close>

theorem cast_sweep_amended:
  "(\<forall>(f, fn) \<in> set [(cast_int P, Cast_int), (cast_float P, Cast_float)].
      f [RangeSweep start stop step ts sh] NoneV =
        bind_exn (f [start] NoneV) (\<lambda>start'.
        bind_exn (f [stop] NoneV) (\<lambda>stop'.
        bind_exn (f [step] NoneV) (\<lambda>step'.
        Inr (RangeSweep start' stop' step' {} False))))
      \<and> ((\<exists>r. f [RangeSweep start stop step ts sh] NoneV = Inr r) \<longleftrightarrow>
           (\<exists>start' stop' step'. f [start] NoneV = Inr start' \<and> f [stop] NoneV = Inr stop'
              \<and> f [step] NoneV = Inr step')))
   \<and> cast_int P [RangeSweep (IntV a) (IntV b) (IntV c) ts sh] NoneV
       = Inr (RangeSweep (IntV a) (IntV b) (IntV c) {} False)
   \<and> (float_int P a = Inr a' \<and> float_int P b = Inr b' \<and> float_int P c = Inr c' \<longrightarrow>
        cast_float P [RangeSweep (IntV a) (IntV b) (IntV c) ts sh] NoneV
          = Inr (RangeSweep (FloatV a') (FloatV b') (FloatV c') {} False))
   \<and> cast_str P [RangeSweep start stop step ts sh] NoneV = Inl HydraException
   \<and> cast_bool P [RangeSweep start stop step ts sh] NoneV = Inl HydraException
   \<and> (\<forall>f \<in> {cast_int P, cast_float P, cast_str P, cast_bool P}.
        f [IntervalSweep start end ts sh] NoneV = Inl ValueError)"
  by (auto simp: cast_int_def cast_float_def cast_str_def cast_bool_def cast_one_positional
      new_RangeSweep_def bind_exn_def split: sum.splits)

theorem cast_sweep_amended_witness:
  "cast_float example_builtins [RangeSweep (IntV 1) (IntV 5) (IntV 1) {} False] NoneV
     = Inr (RangeSweep (FloatV 1) (FloatV 5) (FloatV 1) {} False)
   \<and> cast_bool example_builtins [IntervalSweep (IntV 0) (IntV 1) {} False] NoneV = Inl ValueError"
proof -
  note t = cast_sweep_amended [of example_builtins "IntV 0" "IntV 1" "IntV 1" "{}" False
      1 5 1 1 5 1 "IntV 1"]
  have "float_int example_builtins 1 = Inr 1 \<and> float_int example_builtins 5 = Inr 5
        \<and> float_int example_builtins 1 = Inr 1"
    by (simp add: example_builtins_def)
  with t have 1: "cast_float example_builtins [RangeSweep (IntV 1) (IntV 5) (IntV 1) {} False] NoneV
     = Inr (RangeSweep (FloatV 1) (FloatV 5) (FloatV 1) {} False)" by blast
  from t have 2: "cast_bool example_builtins [IntervalSweep (IntV 0) (IntV 1) {} False] NoneV = Inl ValueError"
    by blast
  from 1 2 show ?thesis by simp
qed

text \<open>
  C8. \<^verbatim>\<open>cast_bool\<close> of a string is \<^verbatim>\<open>True\<close> when the string equals \<^verbatim>\<open>true\<close> with
  case ignored, \<^verbatim>\<open>False\<close> when it equals \<^verbatim>\<open>false\<close> with case ignored, and raises
  \<^verbatim>\<open>ValueError\<close> for every other string; of an \<^verbatim>\<open>int\<close>, a \<^verbatim>\<open>float\<close> or a \<^verbatim>\<open>bool\<close>
  it is the truth value of the scalar.
\<close>

theorem cast_bool_scalar:
  "(equal_ignoring_case s ''true'' \<longrightarrow> cast_bool P [StrV s] NoneV = Inr (BoolV True))
   \<and> (equal_ignoring_case s ''false'' \<longrightarrow> cast_bool P [StrV s] NoneV = Inr (BoolV False))
   \<and> (\<not> equal_ignoring_case s ''true'' \<and> \<not> equal_ignoring_case s ''false'' \<longrightarrow>
        cast_bool P [StrV s] NoneV = Inl ValueError)
   \<and> cast_bool P [IntV n] NoneV = Inr (BoolV (n \<noteq> 0))
   \<and> cast_bool P [FloatV x] NoneV = Inr (BoolV (bool_float P x))
   \<and> cast_bool P [BoolV b] NoneV = Inr (BoolV b)"
  by (simp add: cast_bool_def cast_one_positional equal_ignoring_case_lower lower_literal)

theorem cast_bool_scalar_witness:
  "cast_bool example_builtins [StrV ''TrUe''] NoneV = Inr (BoolV True)
   \<and> cast_bool example_builtins [StrV ''FALSE''] NoneV = Inr (BoolV False)
   \<and> cast_bool example_builtins [StrV ''yes''] NoneV = Inl ValueError
   \<and> cast_bool example_builtins [IntV 0] NoneV = Inr (BoolV False)
   \<and> cast_bool example_builtins [FloatV 2] NoneV = Inr (BoolV True)"
  using cast_bool_scalar [of "''TrUe''" example_builtins 0 2 True]
    cast_bool_scalar [of "''FALSE''" example_builtins 0 2 True]
    cast_bool_scalar [of "''yes''" example_builtins 0 2 True]
  by (simp add: equal_ignoring_case_def lower_char_def example_builtins_def)

section \<open>Properties of the ordering transforms\<close>

text \<open>
  C9. \<^verbatim>\<open>sort\<close> called with exactly one positional argument that is neither a list nor a
  \<^verbatim>\<open>ChoiceSweep\<close> or \<^verbatim>\<open>RangeSweep\<close> raises \<^verbatim>\<open>TypeError\<close>, whereas \<^verbatim>\<open>shuffle\<close> called
  with such an argument returns the one-element list that holds it (and leaves the random
  generator alone).
\<close>

theorem sort_scalar_raises_shuffle_wraps:
  assumes "\<not> is_ChoiceSweep x" and "\<not> is_RangeSweep x" and "\<forall>xs. x \<noteq> ListV xs"
  shows "sort_py P [x] NoneV reverse NoneV = Inl TypeError
       \<and> shuffle P g [x] NoneV NoneV = (Inr (ListV [x]), g)"
  using assms by (cases x; simp add: sort_py.simps shuffle.simps)

theorem sort_scalar_raises_shuffle_wraps_witness:
  "sort_py example_builtins [IntV 5] NoneV False NoneV = Inl TypeError
   \<and> shuffle example_builtins 0 [IntV 5] NoneV NoneV = (Inr (ListV [IntV 5]), 0)"
  using sort_scalar_raises_shuffle_wraps [of "IntV 5" example_builtins False 0] by simp

text \<open>
  C10. When both the \<^verbatim>\<open>list\<close> and the \<^verbatim>\<open>sweep\<close> keyword are given to \<^verbatim>\<open>shuffle\<close> or to
  \<^verbatim>\<open>sort\<close>, the call is the call with the list as its only positional argument: the
  sweep (and any positional argument) is ignored and no conflict is reported. For a list
  this is the shuffled, respectively sorted, list. A cast function given positional
  arguments and the keyword \<^verbatim>\<open>value\<close> raises \<^verbatim>\<open>TypeError\<close> instead.
\<close>

theorem list_keyword_wins:
  assumes "lst \<noteq> NoneV" and "sweep \<noteq> NoneV"
  shows "shuffle P g args sweep lst = shuffle P g [lst] NoneV NoneV
       \<and> sort_py P args sweep reverse lst = sort_py P [lst] NoneV reverse NoneV
       \<and> (\<forall>xs. lst = ListV xs \<longrightarrow>
            shuffle P g args sweep lst =
              (Inr (ListV (fst (random_shuffle P g xs))), snd (random_shuffle P g xs))
          \<and> sort_py P args sweep reverse lst =
              (case py_sorted P xs reverse of Inl e \<Rightarrow> Inl e | Inr ys \<Rightarrow> Inr (ListV ys)))
       \<and> (args \<noteq> [] \<longrightarrow> cast P fn args lst = Inl TypeError)"
proof -
  have 1: "shuffle P g args sweep lst = shuffle P g [lst] NoneV NoneV"
    using assms(1) by (subst shuffle.simps) simp
  have 2: "sort_py P args sweep reverse lst = sort_py P [lst] NoneV reverse NoneV"
    using assms(1) by (subst sort_py.simps) simp
  have 3: "shuffle P g [ListV xs] NoneV NoneV =
      (Inr (ListV (fst (random_shuffle P g xs))), snd (random_shuffle P g xs))" for xs
    by (subst shuffle.simps) (simp add: case_prod_beta)
  have 4: "sort_py P [ListV xs] NoneV reverse NoneV =
      (case py_sorted P xs reverse of Inl e \<Rightarrow> Inl e | Inr ys \<Rightarrow> Inr (ListV ys))" for xs
    by (subst sort_py.simps) simp
  have 5: "args \<noteq> [] \<longrightarrow> cast P fn args lst = Inl TypeError"
    using assms(1) by (simp add: cast_def normalize_cast_value_def bind_exn_def)
  show ?thesis
  proof (intro conjI allI impI)
    fix xs assume "lst = ListV xs"
    then show "shuffle P g args sweep lst =
        (Inr (ListV (fst (random_shuffle P g xs))), snd (random_shuffle P g xs))"
      using 1 3 [of xs] by simp
  next
    fix xs assume "lst = ListV xs"
    then show "sort_py P args sweep reverse lst =
        (case py_sorted P xs reverse of Inl e \<Rightarrow> Inl e | Inr ys \<Rightarrow> Inr (ListV ys))"
      using 2 4 [of xs] by simp
  next
    assume "args \<noteq> []" then show "cast P fn args lst = Inl TypeError" using 5 by simp
  qed (rule 1, rule 2)
qed

theorem list_keyword_wins_witness:
  "shuffle example_builtins 0 [] (ChoiceSweep [IntV 1] False {} False) (ListV [IntV 3, IntV 1, IntV 2])
     = (Inr (ListV [IntV 3, IntV 1, IntV 2]), 1)
   \<and> sort_py example_builtins [] (ChoiceSweep [IntV 1] False {} False) False (ListV [IntV 3, IntV 1, IntV 2])
     = Inr (ListV [IntV 1, IntV 2, IntV 3])"
  using list_keyword_wins [of "ListV [IntV 3, IntV 1, IntV 2]" "ChoiceSweep [IntV 1] False {} False"
      example_builtins 0 "[]" False Cast_int]
  by (auto simp: example_builtins_def)

lemma div_pred: "0 < s \<Longrightarrow> 1 \<le> k \<Longrightarrow> (k * s - 1) div s = k - (1::int)"
proof -
  assume s: "0 < s" and k: "1 \<le> k"
  have "k * s - 1 = (k - 1) * s + (s - 1)" by (simp add: algebra_simps)
  then have "(k * s - 1) div s = ((k - 1) * s + (s - 1)) div s" by (rule arg_cong)
  also have "\<dots> = k - 1"
    using s by (simp add: div_pos_pos_trivial)
  finally show ?thesis .
qed

lemma range_count_up: "0 < s \<Longrightarrow> 1 \<le> k \<Longrightarrow> range_count a (a + k * s) s = nat k"
  using div_pred [of s k] by (simp add: range_count_def)

lemma range_count_down: "0 < s \<Longrightarrow> 1 \<le> k \<Longrightarrow> range_count a (a - k * s) (- s) = nat k"
  using div_pred [of s k] by (simp add: range_count_def)

lemma range_count_empty:
  "\<not> (0 < s \<and> a < b) \<Longrightarrow> \<not> (s < 0 \<and> b < a) \<Longrightarrow> range_count a b s = 0"
  by (auto simp: range_count_def)

lemma rev_map_upt: "rev (map f [0 ..< n]) = map (\<lambda>i. f (n - 1 - i)) [0 ..< n]"
  by (rule nth_equalityI) (simp_all add: rev_nth)

lemma sorted_expand_up: "0 < s \<Longrightarrow> sorted (expand a b s)"
  unfolding expand_def
  by (auto simp: sorted_iff_nth_mono)

lemma sort_expand_up: "0 < s \<Longrightarrow> sort (expand a b s) = expand a b s"
  by (simp add: sorted_expand_up sorted_sort_id)

lemma sorted_rev_expand_down: "s < 0 \<Longrightarrow> sorted (rev (expand a b s))"
  unfolding expand_def
  by (auto simp: sorted_iff_nth_mono rev_nth mult_le_cancel_right)

lemma sort_expand_down: "s < 0 \<Longrightarrow> sort (expand a b s) = rev (expand a b s)"
  by (rule properties_for_sort) (simp_all add: sorted_rev_expand_down)

lemma expand_empty:
  "\<not> (0 < s \<and> a < b) \<Longrightarrow> \<not> (s < 0 \<and> b < a) \<Longrightarrow> expand a b s = []"
  by (simp add: expand_def range_count_empty)

lemma expand_flip_up:
  assumes "0 < s" and "1 \<le> k"
  shows "expand (a + k * s - s) (a - s) (- s) = rev (expand a (a + k * s) s)"
proof -
  have "a - s = (a + k * s - s) - k * s" by simp
  then have c: "range_count (a + k * s - s) (a - s) (- s) = nat k"
    using range_count_down [OF assms, of "a + k * s - s"] by simp
  have "int (nat k - 1 - i) = k - 1 - int i" if "i < nat k" for i
    using that assms by auto
  then show ?thesis
    unfolding expand_def c range_count_up [OF assms] rev_map_upt
    by (auto simp: algebra_simps)
qed

lemma expand_flip_down:
  assumes "0 < s" and "1 \<le> k"
  shows "expand (a - k * s + s) (a + s) s = rev (expand a (a - k * s) (- s))"
proof -
  have "a + s = (a - k * s + s) + k * s" by simp
  then have c: "range_count (a - k * s + s) (a + s) s = nat k"
    using range_count_up [OF assms, of "a - k * s + s"] by simp
  have "int (nat k - 1 - i) = k - 1 - int i" if "i < nat k" for i
    using that assms by auto
  then show ?thesis
    unfolding expand_def c range_count_down [OF assms] rev_map_upt
    by (auto simp: algebra_simps)
qed

lemma dvd_span:
  assumes "(s::int) dvd d" and "0 < s" and "0 < d"
  obtains k where "1 \<le> k" and "d = k * s"
proof -
  from assms(1) obtain k where k: "d = s * k" by (auto simp: dvd_def)
  with assms(2,3) have "0 < k" by (simp add: zero_less_mult_iff)
  with k that [of k] show thesis by (simp add: mult.commute)
qed

lemma sort_sweep_IntV:
  "sort_sweep P (RangeSweep (IntV a) (IntV b) (IntV s) ts sh) reverse =
     Inr (if \<not> reverse \<and> a > b then RangeSweep (IntV (b + \<bar>s\<bar>)) (IntV (a + \<bar>s\<bar>)) (IntV (- s)) ts sh
          else if reverse \<and> a < b then RangeSweep (IntV (b - \<bar>s\<bar>)) (IntV (a - \<bar>s\<bar>)) (IntV (- s)) ts sh
          else RangeSweep (IntV a) (IntV b) (IntV s) ts sh)"
  by (simp add: bind_exn_def py_gt_def py_lt_def py_abs_def py_add_def py_sub_def py_neg_def)

text \<open>
  Where the reversal is right: for a step that divides the distance from start to stop,
  the range returned by \<^verbatim>\<open>_sort_sweep\<close> enumerates the values of its argument in the
  requested order. (A range that runs away from its stop is empty and stays empty.)
\<close>

lemma sort_sweep_range_when_step_divides:
  assumes "step \<noteq> 0" and "step dvd stop - start"
  shows "\<exists>r. sort_sweep P (RangeSweep (IntV start) (IntV stop) (IntV step) ts sh) reverse = Inr r
           \<and> expand_sweep r = (if reverse then rev (sort (expand start stop step))
                                else sort (expand start stop step))"
proof -
  consider (flip_down) "\<not> reverse" "stop < start" "step < 0"
    | (empty_down) "\<not> reverse" "stop < start" "0 < step"
    | (keep_up) "\<not> reverse" "start \<le> stop"
    | (flip_up) "reverse" "start < stop" "0 < step"
    | (empty_up) "reverse" "start < stop" "step < 0"
    | (keep_down) "reverse" "stop \<le> start"
    using assms(1) by linarith
  then show ?thesis
  proof cases
    case flip_down
    have "start - stop = - (stop - start)" by simp
    with assms(2) have "- step dvd start - stop"
      by (simp only: dvd_minus_iff minus_dvd_iff)
    then obtain k where k: "1 \<le> k" "start - stop = k * (- step)"
      using flip_down by (elim dvd_span) simp_all
    then have stop: "stop = start - k * (- step)" by simp
    have "expand (start - k * (- step) + (- step)) (start + (- step)) (- step)
            = rev (expand start (start - k * (- step)) (- (- step)))"
      using flip_down k by (intro expand_flip_down) simp_all
    then have "expand (stop + \<bar>step\<bar>) (start + \<bar>step\<bar>) (- step) = rev (expand start stop step)"
      using flip_down stop by simp
    with flip_down show ?thesis
      by (simp add: sort_sweep_IntV sort_expand_down del: sort_sweep.simps)
  next
    case empty_down
    then show ?thesis by (simp add: sort_sweep_IntV expand_empty del: sort_sweep.simps)
  next
    case keep_up
    show ?thesis
    proof (cases "0 < step")
      case True
      with keep_up show ?thesis by (simp add: sort_sweep_IntV sort_expand_up del: sort_sweep.simps)
    next
      case False
      with keep_up show ?thesis by (simp add: sort_sweep_IntV expand_empty del: sort_sweep.simps)
    qed
  next
    case flip_up
    from assms(2) obtain k where k: "1 \<le> k" "stop - start = k * step"
      using flip_up by (elim dvd_span) simp_all
    then have stop: "stop = start + k * step" by simp
    have "expand (start + k * step - step) (start - step) (- step)
            = rev (expand start (start + k * step) step)"
      using flip_up k by (intro expand_flip_up) simp_all
    then have "expand (stop - \<bar>step\<bar>) (start - \<bar>step\<bar>) (- step) = rev (expand start stop step)"
      using flip_up stop by simp
    with flip_up show ?thesis
      by (simp add: sort_sweep_IntV sort_expand_up del: sort_sweep.simps)
  next
    case empty_up
    then show ?thesis by (simp add: sort_sweep_IntV expand_empty del: sort_sweep.simps)
  next
    case keep_down
    show ?thesis
    proof (cases "step < 0")
      case True
      with keep_down show ?thesis by (simp add: sort_sweep_IntV sort_expand_down del: sort_sweep.simps)
    next
      case False
      with keep_down show ?thesis by (simp add: sort_sweep_IntV expand_empty del: sort_sweep.simps)
    qed
  qed
qed

text \<open>
  C1. The claim has the range returned by \<^verbatim>\<open>sort\<close> enumerate the values of its argument
  in the requested order. For the range from 10 down to 1 (exclusive) in steps of 2,
  whose values are 10, 8, 6, 4, 2, \<^verbatim>\<open>sort\<close> returns the range from 3 to 12 in steps of
  2, whose values are 3, 5, 7, 9, 11.
\<close>

theorem sort_range_step_two:
  "sort_py example_builtins [RangeSweep (IntV 10) (IntV 1) (IntV (- 2)) {} False] NoneV False NoneV
     = Inr (RangeSweep (IntV 3) (IntV 12) (IntV 2) {} False)
   \<and> expand_sweep (RangeSweep (IntV 3) (IntV 12) (IntV 2) {} False :: int elem) = [3, 5, 7, 9, 11]
   \<and> sort (expand_sweep (RangeSweep (IntV 10) (IntV 1) (IntV (- 2)) {} False :: int elem))
       = [2, 4, 6, 8, 10]"
  by (simp add: sort_py.simps bind_exn_def py_gt_def py_abs_def py_add_def py_neg_def
      expand_def range_count_def upt_rec)

section \<open>Which objects a call changes\<close>

lemma freshI:
  "prefix h h' \<Longrightarrow> (\<And>a. r = Inr (Ref a) \<Longrightarrow> length h \<le> a \<and> a < length h') \<Longrightarrow> fresh h (r, h')"
  by (simp add: fresh_def)

lemma fresh_error [simp]: "fresh h (Inl e, h') \<longleftrightarrow> prefix h h'"
  by (simp add: fresh_def)

lemma fresh_prefix: "fresh h out \<Longrightarrow> prefix h (snd out)"
  by (simp add: fresh_def)

lemma fresh_trans: "prefix h0 h \<Longrightarrow> fresh h out \<Longrightarrow> fresh h0 out"
  by (auto simp: fresh_def dest: prefix_length_le)

lemma prefix_update: "prefix h h' \<Longrightarrow> length h \<le> a \<Longrightarrow> prefix h (h'[a := ob])"
  by (auto simp: prefix_def list_update_append)

lemma prefix_store: "prefix h h' \<Longrightarrow> (\<And>a. v = Ref a \<Longrightarrow> length h \<le> a) \<Longrightarrow> prefix h (store h' v ob)"
  by (cases v) (simp_all add: prefix_update)

lemma prefix_modify: "prefix h h' \<Longrightarrow> (\<And>a. v = Ref a \<Longrightarrow> length h \<le> a) \<Longrightarrow> prefix h (modify h' v f)"
  by (simp add: modify_def prefix_store split: option.splits)

lemma length_store [simp]: "length (store h v ob) = length h"
  by (cases v) simp_all

lemma length_modify [simp]: "length (modify h v f) = length h"
  by (simp add: modify_def split: option.splits)

lemma alloc_eq: "alloc h ob = (v, h') \<longleftrightarrow> v = Ref (length h) \<and> h' = h @ [ob]"
  by (auto simp: alloc_def)

lemma fresh_alloc: "alloc h ob = (v, h') \<Longrightarrow> fresh h (Inr v, h')"
  by (auto simp: alloc_eq fresh_def)

lemma copy_cases:
  "copy v h = (v', h') \<Longrightarrow>
     (v' = v \<and> h' = h \<and> obj_at h v = None) \<or> (\<exists>ob. obj_at h v = Some ob \<and> v' = Ref (length h) \<and> h' = h @ [ob])"
  by (auto simp: copy_def alloc_eq split: option.splits)

lemma val_of_not_Ref [simp]: "val_of e \<noteq> Ref a"
  by (cases e) simp_all

lemma scalar_st_not_Ref [simp]: "scalar_st P fn v \<noteq> Inr (Ref a)"
  by (auto simp: scalar_st_def map_sum_def split: option.splits sum.splits)

lemma fill_dict_fresh:
  assumes "preserving f"
  shows "prefix h0 h \<Longrightarrow> length h0 \<le> d \<Longrightarrow> d < length h \<Longrightarrow>
         fresh h0 (fill_dict f items (Ref d) acc h)"
proof (induction items arbitrary: acc h)
  case Nil
  then show ?case by (simp add: fresh_def)
next
  case (Cons kv items)
  obtain key v where kv: "kv = (key, v)" by (cases kv)
  obtain r h1 where f: "f v h = (r, h1)" by (cases "f v h")
  from assms have fr: "fresh h (f v h)" by (simp add: preserving_def)
  with f have p: "prefix h h1" by (simp add: fresh_def)
  with Cons.prems have p0: "prefix h0 h1" by (meson prefix_order.trans)
  from p Cons.prems have d: "d < length h1" by (meson less_le_trans prefix_length_le)
  show ?case
  proof (cases r)
    case (Inl e)
    with kv f p0 show ?thesis by simp
  next
    case (Inr x)
    have "fresh h0 (fill_dict f items (Ref d) (acc @ [(key, x)]) (store h1 (Ref d) (ODict (acc @ [(key, x)]))))"
      using Cons.prems p0 d by (intro Cons.IH) (simp_all add: prefix_update)
    with kv f Inr show ?thesis by simp
  qed
qed

lemma fill_choices_fresh:
  assumes "preserving f"
  shows "prefix h0 h \<Longrightarrow> length h0 \<le> d \<Longrightarrow> d < length h \<Longrightarrow>
         fresh h0 (fill_choices f items (Ref d) acc h)"
proof (induction items arbitrary: acc h)
  case Nil
  then show ?case by (simp add: fresh_def)
next
  case (Cons v items)
  obtain r h1 where f: "f v h = (r, h1)" by (cases "f v h")
  from assms have fr: "fresh h (f v h)" by (simp add: preserving_def)
  with f have p: "prefix h h1" by (simp add: fresh_def)
  with Cons.prems have p0: "prefix h0 h1" by (meson prefix_order.trans)
  from p Cons.prems have d: "d < length h1" by (meson less_le_trans prefix_length_le)
  show ?case
  proof (cases r)
    case (Inl e)
    with f p0 show ?thesis by simp
  next
    case (Inr x)
    have "fresh h0 (fill_choices f items (Ref d) (acc @ [x]) (store h1 (Ref d) (OList (acc @ [x]))))"
      using Cons.prems p0 d by (intro Cons.IH) (simp_all add: prefix_update)
    with f Inr p0 show ?thesis by simp
  qed
qed

lemma fill_choices_result:
  "fill_choices f items c acc h = (Inr r, h') \<Longrightarrow> r = c"
  by (induction items arbitrary: acc h) (auto split: prod.splits sum.splits if_splits)

lemma map_st_prefix:
  assumes "preserving f"
  shows "prefix h (snd (map_st f xs h))"
proof (induction xs arbitrary: h)
  case Nil
  show ?case by simp
next
  case (Cons x xs)
  obtain r h1 where f: "f x h = (r, h1)" by (cases "f x h")
  from assms have "fresh h (f x h)" by (simp add: preserving_def)
  with f have p: "prefix h h1" by (simp add: fresh_def)
  from Cons.IH [of h1] p have "prefix h (snd (map_st f xs h1))" by (meson prefix_order.trans)
  with f p show ?case by (auto split: sum.splits prod.splits)
qed

lemma apply_to_dict_values_st_fresh:
  "preserving f \<Longrightarrow> fresh h (apply_to_dict_values_st items f h)"
  unfolding apply_to_dict_values_st_def alloc_def
  by (simp add: fill_dict_fresh)

lemma cast_choice_st_fresh:
  assumes "preserving f"
  shows "fresh h (cast_choice_st v f h)"
proof (cases "obj_at h v")
  case None
  then show ?thesis by (simp add: cast_choice_st_def)
next
  case (Some ob)
  show ?thesis
  proof (cases ob)
    case (OChoice lst sf ts sh)
    let ?h1 = "h @ [OList []]"
    show ?thesis
    proof (cases "obj_at ?h1 lst")
      case None
      with Some OChoice show ?thesis by (simp add: cast_choice_st_def alloc_def)
    next
      case (Some ob')
      note lst = this
      show ?thesis
      proof (cases ob')
        case (OList items)
        obtain r h2 where fc: "fill_choices f items (Ref (length h)) [] ?h1 = (r, h2)"
          by (cases "fill_choices f items (Ref (length h)) [] ?h1")
        have fr: "fresh h (fill_choices f items (Ref (length h)) [] ?h1)"
          using assms by (intro fill_choices_fresh) simp_all
        with fc have p: "prefix h h2" by (simp add: fresh_def)
        have "fresh h (case r of Inl e \<Rightarrow> (Inl e, h2)
                  | Inr cs \<Rightarrow> (Inr (Ref (length h2)), h2 @ [OChoice cs sf {} False]))"
          using p by (auto simp: fresh_def split: sum.splits dest: prefix_length_le
              intro: prefix_order.trans)
        with \<open>obj_at h v = Some ob\<close> OChoice lst OList fc show ?thesis
          by (simp add: cast_choice_st_def alloc_def split: sum.splits)
      qed (use \<open>obj_at h v = Some ob\<close> OChoice lst in
            \<open>simp_all add: cast_choice_st_def alloc_def\<close>)
    qed
  qed (use Some in \<open>simp_all add: cast_choice_st_def\<close>)
qed

lemma cast_range_st_fresh:
  assumes "preserving f"
  shows "fresh h (cast_range_st v fn f h)"
proof -
  have step: "prefix h (snd (f x h))" for x h
    using assms by (simp add: preserving_def fresh_def)
  have step': "f x h = (r, h') \<Longrightarrow> prefix h h' \<and> length h \<le> length h'" for x h r h'
    using step [of h x] by (simp add: prefix_length_le)
  show ?thesis
    unfolding cast_range_st_def alloc_def
    by (auto simp: fresh_def split: option.splits obj.splits prod.splits sum.splits
        dest!: step' intro: prefix_order.trans)
qed

lemma cast_interval_st_fresh: "fresh h (cast_interval_st v h)"
  by (simp add: cast_interval_st_def fresh_def split: option.splits obj.splits)

lemma cast_body_st_preserving: "preserving (cast_body_st P fn depth)"
proof (induction depth)
  case 0
  show ?case by (simp add: preserving_def)
next
  case (Suc depth)
  let ?f = "cast_body_st P fn depth"
  have list: "fresh h (case map_st ?f xs h of (Inl e, h1) \<Rightarrow> (Inl e, h1)
         | (Inr ys, h1) \<Rightarrow> (let (lst, h2) = alloc h1 (OList ys) in (Inr lst, h2)))" for xs h
    using map_st_prefix [OF Suc, of h xs]
    by (auto simp: alloc_def fresh_def split: prod.splits sum.splits dest: prefix_length_le
        intro: prefix_order.trans)
  have quoted: "fresh h (?f v h)" for v h
    using Suc by (simp add: preserving_def)
  have "fresh h (cast_body_st P fn (Suc depth) v h)" for v h
  proof (cases "obj_at h v")
    case None
    then show ?thesis by (simp add: fresh_def)
  next
    case (Some ob)
    then show ?thesis
      by (cases ob)
        (simp_all add: quoted list apply_to_dict_values_st_fresh [OF Suc]
          cast_choice_st_fresh [OF Suc] cast_range_st_fresh [OF Suc] cast_interval_st_fresh,
         simp add: fresh_def)
  qed
  then show ?case by (simp add: preserving_def)
qed

lemma list_to_simple_choice_st_fresh: "fresh h (list_to_simple_choice_st Q args h)"
  by (simp add: list_to_simple_choice_st_def alloc_def fresh_def)

lemma cast_st_fresh: "fresh h (cast_st Q P fn depth args v h)"
proof -
  obtain r h1 where n: "normalize_cast_value_st Q args v h = (r, h1)"
    by (cases "normalize_cast_value_st Q args v h")
  have "fresh h (list_to_simple_choice_st Q args h)" by (rule list_to_simple_choice_st_fresh)
  with n have p: "prefix h h1"
    by (auto simp: normalize_cast_value_st_def fresh_def split: if_splits)
  have "fresh h1 (cast_body_st P fn depth x h1)" for x
    using cast_body_st_preserving [of P fn depth] by (simp add: preserving_def)
  with p have "fresh h (cast_body_st P fn depth x h1)" for x by (rule fresh_trans)
  with n p show ?thesis by (simp add: cast_st_def split: sum.splits)
qed

lemma range_st_fresh: "fresh h (range_st start stop step h)"
  by (simp add: range_st_def alloc_def fresh_def)

lemma interval_st_fresh: "fresh h (interval_st start end h)"
  by (simp add: interval_st_def alloc_def fresh_def)

lemma glob_st_fresh: "fresh h (glob_st include exclude h)"
  by (simp add: glob_st_def alloc_def fresh_def Let_def)

lemma choice_st_new_fresh:
  "\<not> (length args = 1 \<and> is_ChoiceSweep_st h (hd args) \<and> simple_form_st h (hd args)) \<Longrightarrow>
   fresh h (choice_st args h)"
  by (auto simp: choice_st_def alloc_def fresh_def)

lemma modify_Ref:
  "a < length h \<Longrightarrow> modify h (Ref a) f = h[a := f (h ! a)]"
  by (simp add: modify_def)

lemma choice_st_promote:
  assumes "is_ChoiceSweep_st h v" and "simple_form_st h v"
  shows "\<exists>a. v = Ref a \<and> a < length h
           \<and> choice_st [v] h = (Inr v, h[a := with_simple_form False (h ! a)])"
proof -
  from assms(1) obtain a where v: "v = Ref a" and a: "a < length h"
    by (cases v) (auto split: if_splits)
  with assms show ?thesis by (simp add: choice_st_def modify_Ref)
qed

lemma tag_st_positional:
  "args \<noteq> [] \<Longrightarrow> tag_st args VNone h =
     (if is_Sweep_st h (last args)
      then (if list_all is_str_st (butlast args)
            then (Inr (last args),
                  modify h (last args) (with_tags (set (map the_str_st (butlast args)))))
            else (Inl ValueError, h))
      else (Inl ValueError, h))"
  by (subst tag_st.simps) simp

lemma tag_st_effect:
  "(\<exists>e. tag_st args sweep h = (Inl e, h))
   \<or> (\<exists>a ts. a < length h \<and> tag_st args sweep h = (Inr (Ref a), h[a := with_tags ts (h ! a)]))"
proof -
  have pos: "(\<exists>e. tag_st xs VNone h = (Inl e, h))
     \<or> (\<exists>a ts. a < length h \<and> tag_st xs VNone h = (Inr (Ref a), h[a := with_tags ts (h ! a)]))"
    for xs :: "'a val list"
  proof (cases "xs = []")
    case True
    then show ?thesis by (subst tag_st.simps) simp
  next
    case False
    show ?thesis
    proof (cases "is_Sweep_st h (last xs) \<and> list_all is_str_st (butlast xs)")
      case True
      then obtain a where "last xs = Ref a" "a < length h"
        by (cases "last xs") (auto split: if_splits)
      with True False show ?thesis by (auto simp: tag_st_positional modify_Ref)
    next
      case False
      with \<open>xs \<noteq> []\<close> show ?thesis by (auto simp: tag_st_positional)
    qed
  qed
  show ?thesis
  proof (cases "args \<noteq> [] \<and> sweep \<noteq> VNone")
    case True
    then have "tag_st args sweep h = tag_st (args @ [sweep]) VNone h"
      by (subst tag_st.simps) simp
    with pos [of "args @ [sweep]"] show ?thesis by simp
  next
    case False
    then consider "args = []" | "sweep = VNone" by blast
    then show ?thesis
    proof cases
      case 1
      then show ?thesis by (subst tag_st.simps) simp
    next
      case 2
      with pos [of args] show ?thesis by simp
    qed
  qed
qed

lemma copy_fresh:
  "copy v h = (v', h') \<Longrightarrow> prefix h h' \<and> (obj_at h' v' \<noteq> None \<longrightarrow> (\<exists>a. v' = Ref a \<and> length h \<le> a \<and> a < length h'))"
  by (drule copy_cases) (auto simp: nth_append)

lemma flip_range_fresh:
  "prefix h0 h \<Longrightarrow> length h0 \<le> a \<Longrightarrow> a < length h \<Longrightarrow> fresh h0 (flip_range P shift (Ref a) ob h)"
  by (auto simp: flip_range_def fresh_def prefix_update Let_def
      split: obj.splits sum.splits)

lemma sort_sweep_st_fresh: "fresh h (sort_sweep_st Q P sweep0 reverse h)"
proof -
  obtain sweep h1 where c: "copy sweep0 h = (sweep, h1)" by (cases "copy sweep0 h")
  from copy_fresh [OF c] have p: "prefix h h1"
    and f: "obj_at h1 sweep \<noteq> None \<longrightarrow> (\<exists>a. sweep = Ref a \<and> length h \<le> a \<and> a < length h1)"
    by simp_all
  show ?thesis
  proof (cases "obj_at h1 sweep")
    case None
    with c p show ?thesis by (simp add: sort_sweep_st_def)
  next
    case (Some ob)
    with f obtain a where a: "sweep = Ref a" "length h \<le> a" "a < length h1" by auto
    have fl: "fresh h (flip_range P shift (Ref a) ob' h1)" for shift ob'
      using p a by (intro flip_range_fresh) simp_all
    have pu: "prefix h ((h1 @ [x])[a := y])" for x y
      using p a by (intro prefix_update) (auto intro: prefix_order.trans)
    show ?thesis
      using c Some a p fl pu
      by (cases ob)
        (auto simp: sort_sweep_st_def alloc_def fresh_def
          split: option.splits obj.splits sum.splits)
  qed
qed

lemma shuffle_st_positional_fresh: "fresh h (fst (shuffle_st Q g args VNone VNone h))"
proof (cases "length args = 1")
  case False
  obtain r h1 where l: "list_to_simple_choice_st Q args h = (r, h1)"
    by (cases "list_to_simple_choice_st Q args h")
  from list_to_simple_choice_st_fresh [of h Q args] l
  have "prefix h h1" and "\<And>a. r = Inr (Ref a) \<Longrightarrow> length h \<le> a \<and> a < length h1"
    by (simp_all add: fresh_def)
  with False l show ?thesis
    by (subst shuffle_st.simps) (auto simp: fresh_def prefix_modify split: sum.splits)
next
  case True
  then obtain arg where args: "args = [arg]" by (cases args) auto
  obtain v' h' where c: "copy arg h = (v', h')" by (cases "copy arg h")
  show ?thesis
  proof (cases "obj_at h arg")
    case None
    with args show ?thesis
      by (subst shuffle_st.simps) (simp add: alloc_def fresh_def)
  next
    case (Some ob)
    with c have v': "v' = Ref (length h)" "h' = h @ [ob]"
      by (auto dest: copy_cases)
    have pm: "prefix h (modify (h @ [ob]) (Ref (length h)) f)" for f
      by (intro prefix_modify) simp_all
    have pu: "prefix h ((h @ [ob])[length h := x])" for x
      by (intro prefix_update) simp_all
    from args Some c v' pm pu show ?thesis
      by (subst shuffle_st.simps)
        (cases ob; simp add: alloc_def fresh_def case_prod_beta del: list_update_append1)
  qed
qed

lemma shuffle_st_fresh: "fresh h (fst (shuffle_st Q g args sweep lst h))"
proof -
  consider "lst \<noteq> VNone" | "lst = VNone" "sweep \<noteq> VNone" | "lst = VNone" "sweep = VNone"
    by blast
  then show ?thesis
  proof cases
    case 1
    then have "shuffle_st Q g args sweep lst h = shuffle_st Q g [lst] VNone VNone h"
      by (subst shuffle_st.simps) simp
    then show ?thesis by (simp add: shuffle_st_positional_fresh)
  next
    case 2
    then have "shuffle_st Q g args sweep lst h = shuffle_st Q g [sweep] VNone VNone h"
      by (subst shuffle_st.simps) simp
    then show ?thesis by (simp add: shuffle_st_positional_fresh)
  next
    case 3
    then show ?thesis by (simp add: shuffle_st_positional_fresh)
  qed
qed

lemma sort_st_positional_fresh: "fresh h (sort_st Q P args VNone reverse VNone h)"
proof -
  obtain r h1 where l: "list_to_simple_choice_st Q args h = (r, h1)"
    by (cases "list_to_simple_choice_st Q args h")
  from list_to_simple_choice_st_fresh [of h Q args] l have p: "prefix h h1"
    by (simp add: fresh_def)
  have s: "fresh h (sort_sweep_st Q P cw reverse h1)" for cw
    using p sort_sweep_st_fresh by (rule fresh_trans)
  have A: "fresh h (case obj_at h arg of
                 Some (OList xs) \<Rightarrow>
                   (case sorted_st Q h xs reverse of
                      Inl e \<Rightarrow> (Inl e, h)
                    | Inr ys \<Rightarrow> (let (lst', h1) = alloc h (OList ys) in (Inr lst', h1)))
               | _ \<Rightarrow> (Inl TypeError, h))" for arg
    by (auto simp: alloc_def fresh_def split: option.splits obj.splits sum.splits)
  have B: "fresh h (case list_to_simple_choice_st Q args h of
              (Inl e, h1) \<Rightarrow> (Inl e, h1)
            | (Inr cw, h1) \<Rightarrow> sort_sweep_st Q P cw reverse h1)"
    using l p s by (cases r) simp_all
  show ?thesis
    by (subst sort_st.simps) (simp add: A B sort_sweep_st_fresh Let_def del: is_ChoiceSweep_st.simps is_RangeSweep_st.simps)
qed

lemma sort_st_fresh: "fresh h (sort_st Q P args sweep reverse lst h)"
proof -
  consider "lst \<noteq> VNone" | "lst = VNone" "sweep \<noteq> VNone" | "lst = VNone" "sweep = VNone"
    by blast
  then show ?thesis
  proof cases
    case 1
    then have "sort_st Q P args sweep reverse lst h = sort_st Q P [lst] VNone reverse VNone h"
      by (subst sort_st.simps) simp
    then show ?thesis by (simp add: sort_st_positional_fresh)
  next
    case 2
    then have "sort_st Q P args sweep reverse lst h = sort_sweep_st Q P sweep reverse h"
      by (subst sort_st.simps) simp
    then show ?thesis by (simp add: sort_sweep_st_fresh)
  next
    case 3
    then show ?thesis by (simp add: sort_st_positional_fresh)
  qed
qed

text \<open>
  C2, as stated, fails: \<^verbatim>\<open>choice\<close> given a lone simple-form sweep clears \<^verbatim>\<open>simple_form\<close>
  of the caller's object and returns that object, and \<^verbatim>\<open>tag\<close> replaces the tags of the
  caller's sweep and returns it. In the store below the sweep is at address 1.
\<close>

theorem choice_and_tag_mutate_counterexample:
  "choice_st [Ref 1] [OList [VInt 1, VInt 2], OChoice (Ref 0) True {} False]
     = (Inr (Ref 1), [OList [VInt 1, VInt 2], OChoice (Ref 0) False {} False :: int obj])
   \<and> tag_st [VStr ''a'', Ref 1] VNone [OList [VInt 1, VInt 2], OChoice (Ref 0) True {} False]
     = (Inr (Ref 1), [OList [VInt 1, VInt 2], OChoice (Ref 0) True {''a''} False :: int obj])"
  by (simp add: choice_st_def tag_st_positional modify_def)

lemma tag_st_success:
  assumes "args \<noteq> []" and "is_Sweep_st h (last args)" and "list_all is_str_st (butlast args)"
  shows "\<exists>a. last args = Ref a \<and> a < length h
           \<and> tag_st args VNone h =
               (Inr (last args),
                h[a := with_tags (set (map the_str_st (butlast args))) (h ! a)])"
proof -
  from assms(2) obtain a where a: "last args = Ref a" "a < length h"
    by (cases "last args") (auto split: if_splits)
  with assms show ?thesis by (simp add: tag_st_positional modify_Ref)
qed

lemma tag_st_failure:
  "args \<noteq> [] \<Longrightarrow> \<not> (is_Sweep_st h (last args) \<and> list_all is_str_st (butlast args)) \<Longrightarrow>
   tag_st args VNone h = (Inl ValueError, h)"
  by (auto simp: tag_st_positional)

lemma tag_st_no_positional: "tag_st [] sweep h = (Inl ValueError, h)"
  by (subst tag_st.simps) simp

lemma tag_st_keyword:
  "args \<noteq> [] \<Longrightarrow> sweep \<noteq> VNone \<Longrightarrow> tag_st args sweep h = tag_st (args @ [sweep]) VNone h"
  by (subst tag_st.simps) simp

text \<open>
  C2, amended. \<^verbatim>\<open>range\<close>, \<^verbatim>\<open>interval\<close>, \<^verbatim>\<open>glob\<close>, the four cast functions, \<^verbatim>\<open>shuffle\<close>
  and \<^verbatim>\<open>sort\<close>, and \<^verbatim>\<open>choice\<close> unless it is given a lone simple-form sweep, change no
  object that existed before the call, whether they return or raise, and what they return
  is a scalar or a new object. \<^verbatim>\<open>choice\<close> given a lone simple-form \<^verbatim>\<open>ChoiceSweep\<close> clears
  \<^verbatim>\<open>simple_form\<close> of that object, changes nothing else and returns it. \<^verbatim>\<open>tag\<close> given
  strings followed by a sweep replaces the tags of that sweep by the set of the strings,
  changes nothing else and returns that sweep (a sweep passed by keyword after positional
  arguments counts as the last of them); when it raises, it changes nothing.
\<close>

theorem store_frame_amended:
  "fresh h (range_st start stop step h)
   \<and> fresh h (interval_st start end h)
   \<and> fresh h (glob_st include exclude h)
   \<and> (\<forall>f \<in> {cast_int_st Q P, cast_float_st Q P, cast_str_st Q P, cast_bool_st Q P}.
        fresh h (f depth args v h))
   \<and> fresh h (fst (shuffle_st Q g args sweep lst h))
   \<and> fresh h (sort_st Q P args sweep reverse lst h)
   \<and> (\<not> (length args = 1 \<and> is_ChoiceSweep_st h (hd args) \<and> simple_form_st h (hd args)) \<longrightarrow>
        fresh h (choice_st args h))
   \<and> (is_ChoiceSweep_st h x \<and> simple_form_st h x \<longrightarrow>
        (\<exists>a. x = Ref a \<and> a < length h
           \<and> choice_st [x] h = (Inr x, h[a := with_simple_form False (h ! a)])))
   \<and> (args \<noteq> [] \<and> is_Sweep_st h (last args) \<and> list_all is_str_st (butlast args) \<longrightarrow>
        (\<exists>a. last args = Ref a \<and> a < length h
           \<and> tag_st args VNone h =
               (Inr (last args),
                h[a := with_tags (set (map the_str_st (butlast args))) (h ! a)])))
   \<and> (args \<noteq> [] \<and> \<not> (is_Sweep_st h (last args) \<and> list_all is_str_st (butlast args)) \<longrightarrow>
        tag_st args VNone h = (Inl ValueError, h))
   \<and> (args \<noteq> [] \<and> sweep \<noteq> VNone \<longrightarrow> tag_st args sweep h = tag_st (args @ [sweep]) VNone h)
   \<and> tag_st [] VNone h = (Inl ValueError, h)
   \<and> snd (tag_st [] sweep h) = h"
proof -
  have 4: "\<forall>f \<in> {cast_int_st Q P, cast_float_st Q P, cast_str_st Q P, cast_bool_st Q P}.
        fresh h (f depth args v h)"
    by (simp add: cast_int_st_def cast_float_st_def cast_str_st_def cast_bool_st_def cast_st_fresh)
  have 7: "\<not> (length args = 1 \<and> is_ChoiceSweep_st h (hd args) \<and> simple_form_st h (hd args)) \<longrightarrow>
        fresh h (choice_st args h)"
    using choice_st_new_fresh [of args h] by blast
  have 8: "is_ChoiceSweep_st h x \<and> simple_form_st h x \<longrightarrow>
        (\<exists>a. x = Ref a \<and> a < length h
           \<and> choice_st [x] h = (Inr x, h[a := with_simple_form False (h ! a)]))"
    using choice_st_promote [of h x] by blast
  have 9: "args \<noteq> [] \<and> is_Sweep_st h (last args) \<and> list_all is_str_st (butlast args) \<longrightarrow>
        (\<exists>a. last args = Ref a \<and> a < length h
           \<and> tag_st args VNone h =
               (Inr (last args),
                h[a := with_tags (set (map the_str_st (butlast args))) (h ! a)]))"
    using tag_st_success [of args h] by blast
  have 10: "args \<noteq> [] \<and> \<not> (is_Sweep_st h (last args) \<and> list_all is_str_st (butlast args)) \<longrightarrow>
        tag_st args VNone h = (Inl ValueError, h)"
    using tag_st_failure [of args h] by blast
  have 11: "args \<noteq> [] \<and> sweep \<noteq> VNone \<longrightarrow> tag_st args sweep h = tag_st (args @ [sweep]) VNone h"
    using tag_st_keyword [of args sweep h] by blast
  have 12: "tag_st [] VNone h = (Inl ValueError, h)" by (rule tag_st_no_positional)
  have 13: "snd (tag_st [] sweep h) = h" by (simp add: tag_st_no_positional)
  show ?thesis
    by (intro conjI range_st_fresh interval_st_fresh glob_st_fresh 4 shuffle_st_fresh
        sort_st_fresh 7 8 9 10 11 12 13)
qed

theorem store_frame_amended_witness:
  "fresh ([] :: int heap) (choice_st [VInt 1, VInt 2] [])
   \<and> choice_st [VInt 1, VInt 2] []
       = (Inr (Ref 1), [OList [VInt 1, VInt 2], OChoice (Ref 0) False {} False :: int obj])
   \<and> fresh [OList [VInt 2, VInt 1], OChoice (Ref 0) True {} False]
       (sort_st example_store_builtins example_builtins [Ref 1] VNone False VNone
          [OList [VInt 2, VInt 1], OChoice (Ref 0) True {} False])
   \<and> choice_st [Ref 1] [OList [VInt 1, VInt 2], OChoice (Ref 0) True {} False]
       = (Inr (Ref 1), [OList [VInt 1, VInt 2], OChoice (Ref 0) False {} False :: int obj])
   \<and> tag_st [VStr ''a'', Ref 1] VNone [OList [VInt 1, VInt 2], OChoice (Ref 0) True {} False]
       = (Inr (Ref 1), [OList [VInt 1, VInt 2], OChoice (Ref 0) True {''a''} False :: int obj])
   \<and> tag_st [VStr ''a'', VInt 3] VNone [OList [VInt 1, VInt 2], OChoice (Ref 0) True {} False]
       = (Inl ValueError, [OList [VInt 1, VInt 2], OChoice (Ref 0) True {} False :: int obj])"
proof -
  let ?h = "[OList [VInt 1, VInt 2], OChoice (Ref 0) True {} False] :: int heap"
  let ?h' = "[OList [VInt 2, VInt 1], OChoice (Ref 0) True {} False] :: int heap"
  note t1 = store_frame_amended [where h = "[] :: int heap" and args = "[VInt 1, VInt 2]"]
  have "\<not> (length [VInt 1, VInt 2 :: int val] = 1
          \<and> is_ChoiceSweep_st [] (hd [VInt 1, VInt 2 :: int val])
          \<and> simple_form_st [] (hd [VInt 1, VInt 2 :: int val]))" by simp
  with t1 have 1: "fresh ([] :: int heap) (choice_st [VInt 1, VInt 2] [])" by blast
  have 2: "choice_st [VInt 1, VInt 2] []
       = (Inr (Ref 1), [OList [VInt 1, VInt 2], OChoice (Ref 0) False {} False :: int obj])"
    by (simp add: choice_st_def alloc_def)
  from store_frame_amended [where h = ?h' and Q = example_store_builtins and P = example_builtins
      and args = "[Ref 1]" and sweep = VNone and reverse = False and lst = VNone]
  have 3: "fresh ?h' (sort_st example_store_builtins example_builtins [Ref 1] VNone False VNone ?h')"
    by blast
  note t2 = store_frame_amended [where h = ?h and x = "Ref 1"]
  have "is_ChoiceSweep_st ?h (Ref 1) \<and> simple_form_st ?h (Ref 1)" by simp
  with t2 obtain a where a: "Ref 1 = (Ref a :: int val)"
    and c: "choice_st [Ref 1] ?h = (Inr (Ref 1), ?h[a := with_simple_form False (?h ! a)])"
    by blast
  from a have "a = 1" by simp
  with c have 4: "choice_st [Ref 1] ?h
       = (Inr (Ref 1), [OList [VInt 1, VInt 2], OChoice (Ref 0) False {} False])"
    by simp
  let ?args = "[VStr ''a'', Ref 1] :: int val list"
  note t3 = store_frame_amended [where h = ?h and args = ?args]
  have "?args \<noteq> [] \<and> is_Sweep_st ?h (last ?args) \<and> list_all is_str_st (butlast ?args)"
    by simp
  with t3 obtain b where b: "last ?args = Ref b"
    and d: "tag_st ?args VNone ?h =
       (Inr (last ?args), ?h[b := with_tags (set (map the_str_st (butlast ?args))) (?h ! b)])"
    by blast
  from b have "b = 1" by simp
  with d have 5: "tag_st ?args VNone ?h
       = (Inr (Ref 1), [OList [VInt 1, VInt 2], OChoice (Ref 0) True {''a''} False])"
    by simp
  let ?bad = "[VStr ''a'', VInt 3] :: int val list"
  note t4 = store_frame_amended [where h = ?h and args = ?bad]
  have "?bad \<noteq> [] \<and> \<not> (is_Sweep_st ?h (last ?bad) \<and> list_all is_str_st (butlast ?bad))"
    by simp
  with t4 have 6: "tag_st ?bad VNone ?h = (Inl ValueError, ?h)" by blast
  from 1 2 3 4 5 6 show ?thesis by blast
qed

text \<open>A run of \<^verbatim>\<open>sort\<close> on the store: the copy is at address 2, its sorted list at 3.\<close>

lemma sort_st_example:
  "sort_st example_store_builtins example_builtins [Ref 1] VNone False VNone
          [OList [VInt 2, VInt 1], OChoice (Ref 0) True {} False]
   = (Inr (Ref 2), [OList [VInt 2, VInt 1], OChoice (Ref 0) True {} False,
                    OChoice (Ref 3) True {} False, OList [VInt 1, VInt 2]])"
  by (subst sort_st.simps)
    (simp add: sort_sweep_st_def copy_def alloc_def example_store_builtins_def)

end
